theory Spec2Isabelle
  imports Main
begin

section \<open>Data model of the notebook editor toolbar\<close>

text \<open>
  An \<open>IAction\<close> is known to the layout code by its \<open>id\<close> string and by its class
  (\<open>instanceof MenuItemAction\<close>, \<open>instanceof Separator\<close>). The field \<open>id\<close> of the source
  is \<open>action_id\<close> here, and the field \<open>size\<close> of \<open>IActionModel\<close> is \<open>size_px\<close>, since
  \<open>id\<close> and \<open>size\<close> are constants of HOL. Pixel widths are integers.
\<close>

datatype ActionClass = MenuItemAction | SubmenuItemAction | Separator | OtherAction

record IAction =
  action_id :: string
  action_class :: ActionClass

record IActionModel =
  action :: IAction
  size_px :: int
  visible :: bool
  renderLabel :: bool

text \<open>
  The part of \<open>NotebookEditorToolbar\<close> the strategies read and mutate. The entries of
  \<open>primaryActions\<close> are pairwise distinct objects (\<open>_cacheItemSizes\<close> allocates one per
  toolbar item), and the arrays \<open>actions\<close>, \<open>renderActions\<close> and \<open>visibleActions\<close> of the
  strategies are slices of \<open>primaryActions\<close> starting at index 0 holding the same objects.
  A mutation through such a slice is therefore a mutation of a prefix of \<open>primaryActions\<close>,
  and the model rewrites the list by position.
\<close>

record NotebookEditorToolbar =
  primaryActions :: "IActionModel list"
  secondaryActions :: "IAction list"

text \<open>The object \<open>{ primaryActions, secondaryActions }\<close> returned by \<open>calculateActions\<close>.\<close>

record CalculatedActions =
  primaryOut :: "IAction list"
  secondaryOut :: "IAction list"

datatype error = TypeError

definition ICON_ONLY_ACTION_WIDTH :: int where
  "ICON_ONLY_ACTION_WIDTH = 21"

definition TOGGLE_MORE_ACTION_WIDTH :: int where
  "TOGGLE_MORE_ACTION_WIDTH = 21"

definition ACTION_PADDING :: int where
  "ACTION_PADDING = 8"

definition insertMarkdownCellBelow :: string where
  "insertMarkdownCellBelow = ''notebook.cell.insertMarkdownCellBelow''"

text \<open>
  \<open>ToggleMenuAction.ID\<close> and \<open>SELECT_KERNEL_ID\<close> are imported from modules outside the
  sources at hand; every function that reads one of them takes it as its first parameter
  (\<open>toggleId\<close>, \<open>kernelId\<close>).
\<close>

section \<open>FixedLabelStrategy and FixedLabellessStrategy\<close>

text \<open>
  The \<open>for\<close> loop of \<open>_calculateFixedActions\<close>, run over the actions still to visit, with
  the loop variables \<open>size\<close> and \<open>actions\<close> as accumulator. The \<open>break\<close> returns the
  accumulator.
\<close>

fun fixedLoop :: "int \<Rightarrow> int \<times> IActionModel list \<Rightarrow> IActionModel list
    \<Rightarrow> int \<times> IActionModel list" where
  "fixedLoop maxWidth (sz, acts) [] = (sz, acts)"
| "fixedLoop maxWidth (sz, acts) (actionModel # rest) =
     (let itemSize = size_px actionModel in
      if sz + itemSize \<le> maxWidth
      then fixedLoop maxWidth (sz + (ACTION_PADDING + itemSize), acts @ [actionModel]) rest
      else (sz, acts))"

definition notToggle :: "string \<Rightarrow> IActionModel \<Rightarrow> bool" where
  "notToggle toggleId m \<longleftrightarrow> action_id (action m) \<noteq> toggleId"

definition hasToggleMoreAction :: "string \<Rightarrow> IActionModel list \<Rightarrow> bool" where
  "hasToggleMoreAction toggleId pa \<longleftrightarrow> action_id (action (last pa)) = toggleId"

text \<open>\<open>primaryActions.slice(0, primaryActions.length - (hasToggleMoreAction ? 1 : 0))\<close>\<close>

definition withoutToggle :: "string \<Rightarrow> IActionModel list \<Rightarrow> IActionModel list" where
  "withoutToggle toggleId pa =
     take (length pa - (if hasToggleMoreAction toggleId pa then 1 else 0)) pa"

text \<open>
  \<open>_calculateFixedActions\<close>. On an empty \<open>primaryActions\<close> the expression
  \<open>primaryActions[primaryActions.length - 1]\<close> is \<open>undefined\<close> and reading its \<open>action\<close>
  throws a \<open>TypeError\<close>.
\<close>

definition calculateFixedActions ::
    "string \<Rightarrow> NotebookEditorToolbar \<Rightarrow> int \<Rightarrow> error + (CalculatedActions \<times> NotebookEditorToolbar)" where
  "calculateFixedActions toggleId tb leftToolbarContainerMaxWidth =
     (let pa = primaryActions tb in
      if pa = [] then Inl TypeError
      else
        let acts = snd (fixedLoop leftToolbarContainerMaxWidth (0, []) (withoutToggle toggleId pa));
            n = length acts;
            pa' = map (\<lambda>m. m\<lparr>visible := True\<rparr>) (take n pa)
                  @ map (\<lambda>m. m\<lparr>visible := False\<rparr>) (drop n pa)
        in Inr (\<lparr>primaryOut =
                   map action (filter (\<lambda>m. visible m \<and> notToggle toggleId m) (take n pa')),
                 secondaryOut =
                   map action (filter (\<lambda>m. \<not> visible m \<and> notToggle toggleId m) (drop n pa'))
                   @ secondaryActions tb\<rparr>,
                tb\<lparr>primaryActions := pa'\<rparr>))"

definition FixedLabelStrategy_calculateActions ::
    "string \<Rightarrow> NotebookEditorToolbar \<Rightarrow> int \<Rightarrow> error + (CalculatedActions \<times> NotebookEditorToolbar)" where
  "FixedLabelStrategy_calculateActions = calculateFixedActions"

text \<open>\<open>FixedLabellessStrategy\<close> inherits \<open>calculateActions\<close> from \<open>FixedLabelStrategy\<close>.\<close>

definition FixedLabellessStrategy_calculateActions ::
    "string \<Rightarrow> NotebookEditorToolbar \<Rightarrow> int \<Rightarrow> error + (CalculatedActions \<times> NotebookEditorToolbar)" where
  "FixedLabellessStrategy_calculateActions = calculateFixedActions"

section \<open>DynamicLabelStrategy\<close>

text \<open>
  The loop of \<open>_calcuateWithAlllabelsHidden\<close> with its variables \<open>size\<close> and
  \<open>renderActions\<close>: the markdown action is pushed without a test and without a charge
  (\<open>continue\<close>), any other action is pushed when it fits, and the first one that does not
  fit ends the loop (\<open>break\<close>).
\<close>

fun hiddenLoop :: "int \<Rightarrow> int \<times> IActionModel list \<Rightarrow> IActionModel list
    \<Rightarrow> int \<times> IActionModel list" where
  "hiddenLoop maxWidth (sz, renderActions) [] = (sz, renderActions)"
| "hiddenLoop maxWidth (sz, renderActions) (actionModel # rest) =
     (if action_id (action actionModel) = insertMarkdownCellBelow
      then hiddenLoop maxWidth (sz, renderActions @ [actionModel]) rest
      else
        let itemSize = ICON_ONLY_ACTION_WIDTH in
        if sz + itemSize \<le> maxWidth
        then hiddenLoop maxWidth (sz + (ACTION_PADDING + itemSize), renderActions @ [actionModel]) rest
        else (sz, renderActions))"

text \<open>
  \<open>_calcuateWithAlllabelsHidden(actions, maxWidth)\<close>: every label is switched off, the
  loop picks \<open>renderActions\<close>, the picked models become visible unless they are the
  markdown action, and the models from index \<open>renderActions.length\<close> on become invisible.
  The secondary output reads \<open>primaryActions.slice(actions.length)\<close>.
\<close>

definition calcuateWithAlllabelsHidden ::
    "string \<Rightarrow> NotebookEditorToolbar \<Rightarrow> IActionModel list \<Rightarrow> int
      \<Rightarrow> CalculatedActions \<times> NotebookEditorToolbar" where
  "calcuateWithAlllabelsHidden toggleId tb acts leftToolbarContainerMaxWidth =
     (let pa = map (\<lambda>m. m\<lparr>renderLabel := False\<rparr>) (primaryActions tb);
          r = length (snd (hiddenLoop leftToolbarContainerMaxWidth (0, []) acts));
          pa' = map (\<lambda>m. m\<lparr>visible := (action_id (action m) \<noteq> insertMarkdownCellBelow)\<rparr>) (take r pa)
                @ map (\<lambda>m. m\<lparr>visible := False\<rparr>) (drop r pa)
      in (\<lparr>primaryOut =
              map action (filter (\<lambda>m. visible m \<and> notToggle toggleId m) (take r pa')),
            secondaryOut =
              map action (filter (\<lambda>m. \<not> visible m \<and> notToggle toggleId m) (drop (length acts) pa'))
              @ secondaryActions tb\<rparr>,
          tb\<lparr>primaryActions := pa'\<rparr>))"

text \<open>
  The breakpoint search of \<open>calculateActions\<close>: \<open>sum\<close>, the index \<open>i\<close> and
  \<open>lastActionWithLabel\<close> are the accumulator, \<open>rest\<close> is \<open>actions.slice(i + 1)\<close>.
\<close>

fun breakpointLoop :: "int \<Rightarrow> int \<Rightarrow> int \<Rightarrow> int \<Rightarrow> IActionModel list \<Rightarrow> int" where
  "breakpointLoop maxWidth sm i lastActionWithLabel [] = lastActionWithLabel"
| "breakpointLoop maxWidth sm i lastActionWithLabel (m # rest) =
     (let sm' = sm + (size_px m + ACTION_PADDING) in
      if action_class (action m) = Separator
      then
        let newTotalSum = sm' + (if length rest = 0 then 0
                else int (length rest) * ICON_ONLY_ACTION_WIDTH
                     + (int (length rest) - 1) * ACTION_PADDING)
        in breakpointLoop maxWidth sm' (i + 1)
             (if newTotalSum \<le> maxWidth then i else lastActionWithLabel) rest
      else breakpointLoop maxWidth sm' (i + 1) lastActionWithLabel rest)"

definition DynamicLabelStrategy_calculateActions ::
    "string \<Rightarrow> NotebookEditorToolbar \<Rightarrow> int \<Rightarrow> error + (CalculatedActions \<times> NotebookEditorToolbar)" where
  "DynamicLabelStrategy_calculateActions toggleId tb leftToolbarContainerMaxWidth =
     (let pa = primaryActions tb in
      if pa = [] then Inl TypeError
      else
        let acts = withoutToggle toggleId pa in
        if length acts = 0
        then Inr (\<lparr>primaryOut = map action (filter (\<lambda>m. visible m \<and> notToggle toggleId m) pa),
                   secondaryOut = secondaryActions tb\<rparr>, tb)
        else
          let totalWidthWithLabels =
                sum_list (map size_px acts) + (int (length acts) - 1) * ACTION_PADDING in
          if totalWidthWithLabels \<le> leftToolbarContainerMaxWidth
          then
            let pa' = map (\<lambda>m. m\<lparr>visible := True, renderLabel := True\<rparr>) pa
            in Inr (\<lparr>primaryOut = map action (filter (\<lambda>m. visible m \<and> notToggle toggleId m) pa'),
                     secondaryOut = secondaryActions tb\<rparr>,
                    tb\<lparr>primaryActions := pa'\<rparr>)
          else if int (length acts) * ICON_ONLY_ACTION_WIDTH
                  + (int (length acts) - 1) * ACTION_PADDING > leftToolbarContainerMaxWidth
          then Inr (calcuateWithAlllabelsHidden toggleId tb acts leftToolbarContainerMaxWidth)
          else
            let lastActionWithLabel = breakpointLoop leftToolbarContainerMaxWidth 0 0 (- 1) acts in
            if lastActionWithLabel < 0
            then Inr (calcuateWithAlllabelsHidden toggleId tb acts leftToolbarContainerMaxWidth)
            else
              let n = length (take (nat (lastActionWithLabel + 1)) acts);
                  pa' = map (\<lambda>m. m\<lparr>visible := True, renderLabel := True\<rparr>) (take n pa)
                        @ map (\<lambda>m. m\<lparr>visible := True, renderLabel := False\<rparr>) (drop n pa)
              in Inr (\<lparr>primaryOut = map action (filter (\<lambda>m. visible m \<and> notToggle toggleId m) pa'),
                       secondaryOut = secondaryActions tb\<rparr>,
                      tb\<lparr>primaryActions := pa'\<rparr>))"

text \<open>
  \<open>actionProvider\<close> of the three strategies. The result is the class of the view item
  that is instantiated; \<open>NoViewItem\<close> stands for \<open>undefined\<close>.
\<close>

datatype ViewItem =
  NotebookKernelActionViewItem | ActionViewWithLabel | MenuEntryActionViewItem | NoViewItem

definition FixedLabelStrategy_actionProvider ::
    "string \<Rightarrow> NotebookEditorToolbar \<Rightarrow> IAction \<Rightarrow> ViewItem" where
  "FixedLabelStrategy_actionProvider kernelId tb act =
     (if action_id act = kernelId then NotebookKernelActionViewItem
      else
        case find (\<lambda>a. action_id (action a) = action_id act) (primaryActions tb) of
          Some a \<Rightarrow>
            if renderLabel a
            then (if action_class act = MenuItemAction then ActionViewWithLabel else NoViewItem)
            else (if action_class act = MenuItemAction then MenuEntryActionViewItem else NoViewItem)
        | None \<Rightarrow>
            (if action_class act = MenuItemAction then MenuEntryActionViewItem else NoViewItem))"

definition FixedLabellessStrategy_actionProvider ::
    "string \<Rightarrow> NotebookEditorToolbar \<Rightarrow> IAction \<Rightarrow> ViewItem" where
  "FixedLabellessStrategy_actionProvider kernelId tb act =
     (if action_id act = kernelId then NotebookKernelActionViewItem
      else if action_class act = MenuItemAction then MenuEntryActionViewItem else NoViewItem)"

definition DynamicLabelStrategy_actionProvider ::
    "string \<Rightarrow> NotebookEditorToolbar \<Rightarrow> IAction \<Rightarrow> ViewItem" where
  "DynamicLabelStrategy_actionProvider kernelId tb act =
     (if action_id act = kernelId then NotebookKernelActionViewItem
      else
        case find (\<lambda>a. action_id (action a) = action_id act) (primaryActions tb) of
          Some a \<Rightarrow>
            if renderLabel a
            then (if action_class act = MenuItemAction then ActionViewWithLabel else NoViewItem)
            else (if action_class act = MenuItemAction then MenuEntryActionViewItem else NoViewItem)
        | None \<Rightarrow>
            (if action_class act = MenuItemAction then MenuEntryActionViewItem else NoViewItem))"

section \<open>The container: strategy selection and \<open>_computeSizes\<close>\<close>

datatype RenderLabel = Always | Never | Dynamic

text \<open>\<open>_updateStrategy\<close> followed by \<open>this._strategy.calculateActions\<close>.\<close>

definition strategy_calculateActions ::
    "RenderLabel \<Rightarrow> string \<Rightarrow> NotebookEditorToolbar \<Rightarrow> int
      \<Rightarrow> error + (CalculatedActions \<times> NotebookEditorToolbar)" where
  "strategy_calculateActions mode =
     (case mode of
        Always \<Rightarrow> FixedLabelStrategy_calculateActions
      | Never \<Rightarrow> FixedLabellessStrategy_calculateActions
      | Dynamic \<Rightarrow> DynamicLabelStrategy_calculateActions)"

record Dimension =
  width :: int
  height :: int

text \<open>
  \<open>_cacheItemSizes\<close>: the rendered left toolbar is given by the list of its items, each
  with the action (\<open>getItemAction\<close>) and the measured width (\<open>getItemWidth\<close>).
\<close>

definition cacheItemSizes :: "(IAction \<times> int) list \<Rightarrow> NotebookEditorToolbar \<Rightarrow> NotebookEditorToolbar" where
  "cacheItemSizes toolbarItems tb =
     tb\<lparr>primaryActions :=
          map (\<lambda>(a, w). \<lparr>action = a, size_px = w, visible = True, renderLabel = True\<rparr>) toolbarItems\<rparr>"

definition canBeVisible :: "NotebookEditorToolbar \<Rightarrow> int \<Rightarrow> bool" where
  "canBeVisible tb wd \<longleftrightarrow> sum_list (map (\<lambda>m. size_px m + 8) (primaryActions tb)) \<le> wd"

text \<open>
  \<open>_computeSizes\<close>, with both toolbars constructed. \<open>dimension\<close> is \<open>this._dimension\<close>
  (\<open>None\<close> for \<open>null\<close>), \<open>leftItems\<close> the items of the left toolbar and \<open>rightWidths\<close> the
  widths of the items of the right one. The result holds the arguments of the
  \<open>setActions\<close> call on the left toolbar, if one is made.
\<close>

definition computeSizes ::
    "string \<Rightarrow> RenderLabel \<Rightarrow> Dimension option \<Rightarrow> (IAction \<times> int) list \<Rightarrow> int list
      \<Rightarrow> NotebookEditorToolbar \<Rightarrow> error + (CalculatedActions option \<times> NotebookEditorToolbar)" where
  "computeSizes toggleId mode dimension leftItems rightWidths tb =
     (case dimension of
        None \<Rightarrow> Inr (None, tb)
      | Some d \<Rightarrow>
          if height d \<ge> 0 \<and> width d \<ge> 0
          then
            let tb1 = (if length (primaryActions tb) = 0
                          \<and> length leftItems \<noteq> length (primaryActions tb)
                       then cacheItemSizes leftItems tb else tb)
            in
            if length (primaryActions tb1) = 0 then Inr (None, tb1)
            else
              let kernelWidth = (if length rightWidths \<noteq> 0 then hd rightWidths else 0)
                                + ACTION_PADDING
              in
              if canBeVisible tb1 (width d - kernelWidth - ACTION_PADDING)
              then
                let pa' = map (\<lambda>m. m\<lparr>visible := True, renderLabel := True\<rparr>) (primaryActions tb1)
                in Inr (Some \<lparr>primaryOut = map action (filter (notToggle toggleId) pa'),
                              secondaryOut = secondaryActions tb1\<rparr>,
                        tb1\<lparr>primaryActions := pa'\<rparr>)
              else
                let leftToolbarContainerMaxWidth =
                      width d - kernelWidth - (TOGGLE_MORE_ACTION_WIDTH + ACTION_PADDING)
                      - ACTION_PADDING
                in
                case strategy_calculateActions mode toggleId tb1 leftToolbarContainerMaxWidth of
                  Inl e \<Rightarrow> Inl e
                | Inr (calculatedActions, tb2) \<Rightarrow> Inr (Some calculatedActions, tb2)
          else Inr (None, tb))"

section \<open>NotebookStatusBarService\<close>

text \<open>
  What \<open>provideStatusBarItems(docUri, token)\<close> of a provider does for a document: it
  throws (or its promise rejects) with an error, it resolves to \<open>undefined\<close> or \<open>null\<close>, or
  it resolves to an item list.
\<close>

record 'item INotebookStatusBarItemList =
  items :: "'item list"

datatype 'item ProviderOutcome =
  Throws string
  | ResolvesNothing
  | Resolves "'item INotebookStatusBarItemList"

record ('uri, 'item) INotebookStatusBarItemProvider =
  viewType :: string
  provideStatusBarItems :: "'uri \<Rightarrow> 'item ProviderOutcome"

text \<open>\<open>registerStatusBarItemProvider\<close> pushes the provider onto \<open>_providers\<close>.\<close>

definition registerStatusBarItemProvider ::
    "('uri, 'item) INotebookStatusBarItemProvider list \<Rightarrow> ('uri, 'item) INotebookStatusBarItemProvider
      \<Rightarrow> ('uri, 'item) INotebookStatusBarItemProvider list" where
  "registerStatusBarItemProvider providers provider = providers @ [provider]"

text \<open>The local constant \<open>providers\<close> of \<open>getStatusBarItemsForDocument\<close>.\<close>

definition consultedProviders ::
    "('uri, 'item) INotebookStatusBarItemProvider list \<Rightarrow> string
      \<Rightarrow> ('uri, 'item) INotebookStatusBarItemProvider list" where
  "consultedProviders providers vt =
     filter (\<lambda>p. viewType p = vt \<or> viewType p = ''*'') providers"

text \<open>
  The body of the \<open>async\<close> arrow function that is mapped over \<open>providers\<close>: the value its
  promise resolves to. The \<open>catch\<close> branch reports the error to
  \<open>onUnexpectedExternalError\<close> and resolves to the empty list.
\<close>

definition provideOrEmpty ::
    "'uri \<Rightarrow> ('uri, 'item) INotebookStatusBarItemProvider \<Rightarrow> 'item INotebookStatusBarItemList" where
  "provideOrEmpty docUri p =
     (case provideStatusBarItems p docUri of
        Resolves itemList \<Rightarrow> itemList
      | ResolvesNothing \<Rightarrow> \<lparr>items = []\<rparr>
      | Throws e \<Rightarrow> \<lparr>items = []\<rparr>)"

text \<open>
  \<open>getStatusBarItemsForDocument\<close>: \<open>Promise.all\<close> resolves to the array of the values of
  the mapped promises, in the order of \<open>providers\<close>; none of them rejects.
\<close>

definition getStatusBarItemsForDocument ::
    "('uri, 'item) INotebookStatusBarItemProvider list \<Rightarrow> 'uri \<Rightarrow> string
      \<Rightarrow> 'item INotebookStatusBarItemList list" where
  "getStatusBarItemsForDocument providers docUri vt =
     map (provideOrEmpty docUri) (consultedProviders providers vt)"

section \<open>Auxiliary functions of the proofs\<close>

text \<open>
  The number of actions the loop of \<open>_calculateFixedActions\<close> keeps, as a function of
  the sizes alone, and the number the loop of \<open>_calcuateWithAlllabelsHidden\<close> keeps, as a
  function of the actions alone. The lemmas \<open>fixedLoop_take\<close> and \<open>hiddenLoop_take\<close> tie
  them to the loops.
\<close>

fun fixedCount :: "int \<Rightarrow> int \<Rightarrow> int list \<Rightarrow> nat" where
  "fixedCount maxWidth sz [] = 0"
| "fixedCount maxWidth sz (s # ss) =
     (if sz + s \<le> maxWidth then Suc (fixedCount maxWidth (sz + (ACTION_PADDING + s)) ss) else 0)"

fun hiddenCount :: "int \<Rightarrow> int \<Rightarrow> IAction list \<Rightarrow> nat" where
  "hiddenCount maxWidth sz [] = 0"
| "hiddenCount maxWidth sz (a # as) =
     (if action_id a = insertMarkdownCellBelow then Suc (hiddenCount maxWidth sz as)
      else if sz + ICON_ONLY_ACTION_WIDTH \<le> maxWidth
      then Suc (hiddenCount maxWidth (sz + (ACTION_PADDING + ICON_ONLY_ACTION_WIDTH)) as)
      else 0)"

section \<open>Example inputs\<close>

text \<open>
  Concrete inputs for the closed instances of the theorems below: sample values for the two
  imported identifiers, and a toolbar with five measured actions (a separator at index 2),
  the trailing toggle-more action and one secondary action.
\<close>

definition toggleMore :: string where
  "toggleMore = ''toolbar.toggle.more''"

definition selectKernel :: string where
  "selectKernel = ''_notebook.selectKernel''"

definition model :: "string \<Rightarrow> ActionClass \<Rightarrow> int \<Rightarrow> IActionModel" where
  "model i c s = \<lparr>action = \<lparr>action_id = i, action_class = c\<rparr>, size_px = s,
                  visible = True, renderLabel = True\<rparr>"

definition overflowAction :: IAction where
  "overflowAction = \<lparr>action_id = ''notebook.clearAllCellsOutputs'', action_class = MenuItemAction\<rparr>"

definition fiveActions :: NotebookEditorToolbar where
  "fiveActions =
     \<lparr>primaryActions =
        [model ''notebook.cell.insertCodeCellBelow'' MenuItemAction 40,
         model ''notebook.cell.execute'' MenuItemAction 50,
         model ''vs.actions.separator'' Separator 30,
         model ''notebook.restart'' MenuItemAction 60,
         model ''notebook.variables'' MenuItemAction 45,
         model toggleMore OtherAction 21],
      secondaryActions = [overflowAction]\<rparr>"

text \<open>
  Three status-bar item providers over documents named by strings, with items that are
  strings: one for the view type \<open>jupyter-notebook\<close> that resolves to one item, a wildcard
  one that throws, and one for another view type.
\<close>

definition jupyterProvider :: "(string, string) INotebookStatusBarItemProvider" where
  "jupyterProvider = \<lparr>viewType = ''jupyter-notebook'',
                       provideStatusBarItems = (\<lambda>docUri. Resolves \<lparr>items = [''kernel: idle'']\<rparr>)\<rparr>"

definition throwingProvider :: "(string, string) INotebookStatusBarItemProvider" where
  "throwingProvider = \<lparr>viewType = ''*'',
                        provideStatusBarItems = (\<lambda>docUri. Throws ''provider failed'')\<rparr>"

definition otherProvider :: "(string, string) INotebookStatusBarItemProvider" where
  "otherProvider = \<lparr>viewType = ''interactive'',
                     provideStatusBarItems = (\<lambda>docUri. Resolves \<lparr>items = [''interactive'']\<rparr>)\<rparr>"

text \<open>
  A toolbar whose second action is the markdown action, after an ordinary action.
\<close>

definition markdownModel :: IActionModel where
  "markdownModel = model insertMarkdownCellBelow MenuItemAction 60"

definition markdownToolbar :: NotebookEditorToolbar where
  "markdownToolbar =
     \<lparr>primaryActions =
        [model ''notebook.cell.execute'' MenuItemAction 50,
         markdownModel,
         model toggleMore OtherAction 21],
      secondaryActions = []\<rparr>"

text \<open>
  A toolbar without primary actions, and one whose only primary action was measured
  with width 0.
\<close>

definition emptyToolbar :: NotebookEditorToolbar where
  "emptyToolbar = \<lparr>primaryActions = [], secondaryActions = [overflowAction]\<rparr>"

definition zeroSizeToolbar :: NotebookEditorToolbar where
  "zeroSizeToolbar =
     \<lparr>primaryActions = [model ''notebook.cell.execute'' MenuItemAction 0],
      secondaryActions = []\<rparr>"

section \<open>Lists rewritten by position\<close>

lemma take_prefix_rewrite:
  "take n (map f (take n xs) @ map g (drop n xs)) = map f (take n xs)"
  by (cases "n \<le> length xs") (simp_all add: min_def)

lemma drop_prefix_rewrite:
  "drop n (map f (take n xs) @ map g (drop n xs)) = map g (drop n xs)"
  by (cases "n \<le> length xs") (simp_all add: min_def)

lemma filter_take_mono:
  "n \<le> m \<Longrightarrow> length (filter P (take n xs)) \<le> length (filter P (take m xs))"
proof -
  assume "n \<le> m"
  then have "take m xs = take n xs @ take (m - n) (drop n xs)"
    by (metis le_add_diff_inverse take_add)
  then show ?thesis by simp
qed

section \<open>The loops\<close>

lemma fixedLoop_take:
  "snd (fixedLoop w (sz, acc) xs) = acc @ take (fixedCount w sz (map size_px xs)) xs"
  by (induction xs arbitrary: sz acc) (simp_all add: Let_def)

lemma fixedCount_le: "fixedCount w sz ss \<le> length ss"
  by (induction ss arbitrary: sz) simp_all

lemma fixedCount_mono: "w2 \<le> w1 \<Longrightarrow> fixedCount w2 sz ss \<le> fixedCount w1 sz ss"
  by (induction ss arbitrary: sz) simp_all

lemma hiddenLoop_take:
  "snd (hiddenLoop w (sz, acc) xs) = acc @ take (hiddenCount w sz (map action xs)) xs"
  by (induction xs arbitrary: sz acc) (simp_all add: Let_def)

lemma hiddenCount_le: "hiddenCount w sz as \<le> length as"
  by (induction as arbitrary: sz) simp_all

lemma hiddenCount_mono: "w2 \<le> w1 \<Longrightarrow> hiddenCount w2 sz as \<le> hiddenCount w1 sz as"
  by (induction as arbitrary: sz) simp_all

lemma breakpointLoop_cong:
  "map action xs = map action ys \<Longrightarrow> map size_px xs = map size_px ys
   \<Longrightarrow> breakpointLoop w sm i l xs = breakpointLoop w sm i l ys"
proof (induction xs arbitrary: ys sm i l)
  case Nil then show ?case by simp
next
  case (Cons x xs)
  then obtain y ys' where ys: "ys = y # ys'" by (cases ys) auto
  with Cons.prems have "action x = action y" "size_px x = size_px y"
    "map action xs = map action ys'" "map size_px xs = map size_px ys'" by auto
  moreover from this have "length xs = length ys'" by (metis length_map)
  ultimately show ?case using Cons.IH[of ys'] ys by (simp add: Let_def)
qed

lemma breakpointLoop_mono:
  "w2 \<le> w1 \<Longrightarrow> 0 \<le> i \<Longrightarrow> (0 \<le> l2 \<longrightarrow> 0 \<le> l1)
   \<Longrightarrow> 0 \<le> breakpointLoop w2 sm i l2 xs \<Longrightarrow> 0 \<le> breakpointLoop w1 sm i l1 xs"
proof (induction xs arbitrary: sm i l1 l2)
  case Nil then show ?case by simp
next
  case (Cons x xs)
  show ?case
  proof (cases "action_class (action x) = Separator")
    case False
    with Cons.prems Cons.IH[of "i + 1" l2 l1] show ?thesis by (simp add: Let_def)
  next
    case True
    let ?sm = "sm + (size_px x + ACTION_PADDING)"
    let ?nt = "?sm + (if length xs = 0 then 0
                else int (length xs) * ICON_ONLY_ACTION_WIDTH
                     + (int (length xs) - 1) * ACTION_PADDING)"
    let ?l2 = "if ?nt \<le> w2 then i else l2"
    let ?l1 = "if ?nt \<le> w1 then i else l1"
    have "0 \<le> ?l2 \<longrightarrow> 0 \<le> ?l1" using Cons.prems by auto
    moreover have "0 \<le> breakpointLoop w2 ?sm (i + 1) ?l2 xs"
      using Cons.prems(4) True by (simp add: Let_def)
    ultimately have "0 \<le> breakpointLoop w1 ?sm (i + 1) ?l1 xs"
      using Cons.IH[of "i + 1" ?l2 ?l1 ?sm] Cons.prems by simp
    then show ?thesis using True by (simp add: Let_def)
  qed
qed

lemma out_filter_map:
  assumes "\<And>m. action (f m) = action m" and "\<And>m. Q (f m) = P m"
  shows "map action (filter Q (map f xs)) = map action (filter P xs)"
  using assms by (induction xs) simp_all

lemma withoutToggle_length_le: "length (withoutToggle tid pa) \<le> length pa"
  by (simp add: withoutToggle_def)

lemma take_withoutToggle:
  "n \<le> length (withoutToggle tid pa) \<Longrightarrow> take n (withoutToggle tid pa) = take n pa"
  by (auto simp add: withoutToggle_def min_def split: if_splits)

lemma withoutToggle_Nil_iff:
  "pa \<noteq> [] \<Longrightarrow> withoutToggle tid pa = [] \<longleftrightarrow> (\<exists>m. pa = [m] \<and> action_id (action m) = tid)"
proof -
  assume ne: "pa \<noteq> []"
  show ?thesis
  proof
    assume "withoutToggle tid pa = []"
    then have "length pa - (if hasToggleMoreAction tid pa then 1 else 0) = 0"
      using ne by (simp add: withoutToggle_def)
    then have l: "length pa = 1" and h: "hasToggleMoreAction tid pa"
      using ne by (cases pa; auto split: if_splits)+
    from l obtain m where "pa = [m]" by (cases pa) auto
    with h show "\<exists>m. pa = [m] \<and> action_id (action m) = tid"
      by (simp add: hasToggleMoreAction_def)
  next
    assume "\<exists>m. pa = [m] \<and> action_id (action m) = tid"
    then show "withoutToggle tid pa = []"
      by (auto simp add: withoutToggle_def hasToggleMoreAction_def)
  qed
qed

lemma filter_notToggle_split:
  "pa \<noteq> [] \<Longrightarrow>
   filter (notToggle tid) pa = filter (notToggle tid) (withoutToggle tid pa)"
proof -
  assume ne: "pa \<noteq> []"
  show ?thesis
  proof (cases "hasToggleMoreAction tid pa")
    case False then show ?thesis by (simp add: withoutToggle_def)
  next
    case True
    have "pa = butlast pa @ [last pa]" using ne by simp
    then have "filter (notToggle tid) pa
        = filter (notToggle tid) (butlast pa) @ filter (notToggle tid) [last pa]"
      by (metis filter_append)
    moreover have "withoutToggle tid pa = butlast pa"
      using True by (simp add: withoutToggle_def butlast_conv_take)
    ultimately show ?thesis using True by (simp add: hasToggleMoreAction_def notToggle_def)
  qed
qed

lemma hasToggleMoreAction_cong:
  "map action pa' = map action pa \<Longrightarrow> hasToggleMoreAction tid pa' = hasToggleMoreAction tid pa"
proof (cases "pa = []")
  case True
  assume "map action pa' = map action pa"
  with True show ?thesis by simp
next
  case False
  assume eq: "map action pa' = map action pa"
  with False have "pa' \<noteq> []" by auto
  then have "action (last pa') = last (map action pa')" by (simp add: last_map)
  also have "\<dots> = action (last pa)" using eq False by (simp add: last_map)
  finally show ?thesis by (simp add: hasToggleMoreAction_def)
qed

lemma withoutToggle_cong:
  assumes "map action pa' = map action pa"
  shows "withoutToggle tid pa' = take (length (withoutToggle tid pa)) pa'"
    and "length (withoutToggle tid pa') = length (withoutToggle tid pa)"
proof -
  have l: "length pa' = length pa" using assms by (metis length_map)
  show "withoutToggle tid pa' = take (length (withoutToggle tid pa)) pa'"
    using l hasToggleMoreAction_cong[OF assms, of tid] by (simp add: withoutToggle_def)
  show "length (withoutToggle tid pa') = length (withoutToggle tid pa)"
    using l hasToggleMoreAction_cong[OF assms, of tid] by (simp add: withoutToggle_def)
qed

lemma withoutToggle_cong_map:
  assumes "map action pa' = map action pa"
  shows "map h (withoutToggle tid pa') = take (length (withoutToggle tid pa)) (map h pa')"
  by (simp add: withoutToggle_cong(1)[OF assms] take_map)

lemma calculateFixedActions_eq:
  assumes "primaryActions tb \<noteq> []"
  shows "calculateFixedActions tid tb w =
    (let pa = primaryActions tb;
         n = fixedCount w 0 (map size_px (withoutToggle tid pa))
     in Inr (\<lparr>primaryOut = map action (filter (notToggle tid) (take n pa)),
              secondaryOut = map action (filter (notToggle tid) (drop n pa)) @ secondaryActions tb\<rparr>,
             tb\<lparr>primaryActions := map (\<lambda>m. m\<lparr>visible := True\<rparr>) (take n pa)
                                   @ map (\<lambda>m. m\<lparr>visible := False\<rparr>) (drop n pa)\<rparr>))"
proof -
  let ?pa = "primaryActions tb"
  let ?n = "fixedCount w 0 (map size_px (withoutToggle tid ?pa))"
  have n1: "?n \<le> length (withoutToggle tid ?pa)"
    using fixedCount_le[of w 0 "map size_px (withoutToggle tid ?pa)"] by simp
  then have n2: "?n \<le> length ?pa" using withoutToggle_length_le[of tid ?pa] by linarith
  have len: "length (snd (fixedLoop w (0, []) (withoutToggle tid ?pa))) = ?n"
    using n1 by (simp add: fixedLoop_take)
  have p: "map action (filter (\<lambda>m. visible m \<and> notToggle tid m) (map (\<lambda>m. m\<lparr>visible := True\<rparr>) (take ?n ?pa)))
      = map action (filter (notToggle tid) (take ?n ?pa))"
    by (rule out_filter_map) (simp_all add: notToggle_def)
  have s: "map action (filter (\<lambda>m. \<not> visible m \<and> notToggle tid m) (map (\<lambda>m. m\<lparr>visible := False\<rparr>) (drop ?n ?pa)))
      = map action (filter (notToggle tid) (drop ?n ?pa))"
    by (rule out_filter_map) (simp_all add: notToggle_def)
  show ?thesis
    unfolding calculateFixedActions_def Let_def len
      take_prefix_rewrite drop_prefix_rewrite p s
    using assms by simp
qed


lemma drop_prefix_rewrite_le:
  "r \<le> L \<Longrightarrow> drop L (map f (take r xs) @ map g (drop r xs)) = map g (drop L xs)"
proof -
  assume "r \<le> L"
  then obtain k where L: "L = r + k" using le_Suc_ex by blast
  have "drop L (map f (take r xs) @ map g (drop r xs))
      = drop k (drop r (map f (take r xs) @ map g (drop r xs)))"
    unfolding L by (simp add: add.commute)
  also have "\<dots> = drop k (map g (drop r xs))" by (simp only: drop_prefix_rewrite)
  also have "\<dots> = map g (drop L xs)" unfolding L by (simp add: drop_map add.commute)
  finally show ?thesis .
qed

lemma filter_notToggle_rest:
  "filter (notToggle tid) (drop (length (withoutToggle tid pa)) pa) = []"
proof (cases "hasToggleMoreAction tid pa \<and> pa \<noteq> []")
  case False then show ?thesis by (auto simp add: withoutToggle_def)
next
  case True
  then have l: "length (withoutToggle tid pa) = length pa - 1" by (simp add: withoutToggle_def)
  have "pa = butlast pa @ [last pa]" using True by simp
  then have "drop (length pa - 1) pa = [last pa]"
    by (metis append_eq_conv_conj length_butlast)
  then show ?thesis using True l by (simp add: hasToggleMoreAction_def notToggle_def)
qed

lemma calcuateWithAlllabelsHidden_eq:
  assumes "acts = withoutToggle tid (primaryActions tb)"
  shows "calcuateWithAlllabelsHidden tid tb acts w =
    (let pa = primaryActions tb;
         r = hiddenCount w 0 (map action acts)
     in (\<lparr>primaryOut = map action (filter (\<lambda>m. action_id (action m) \<noteq> insertMarkdownCellBelow
                                                  \<and> notToggle tid m) (take r pa)),
          secondaryOut = secondaryActions tb\<rparr>,
         tb\<lparr>primaryActions :=
              map (\<lambda>m. m\<lparr>visible := (action_id (action m) \<noteq> insertMarkdownCellBelow),
                          renderLabel := False\<rparr>) (take r pa)
              @ map (\<lambda>m. m\<lparr>visible := False, renderLabel := False\<rparr>) (drop r pa)\<rparr>))"
proof -
  let ?pa = "primaryActions tb"
  let ?pa1 = "map (\<lambda>m. m\<lparr>renderLabel := False\<rparr>) ?pa"
  let ?r = "hiddenCount w 0 (map action acts)"
  let ?v1 = "\<lambda>m::IActionModel. m\<lparr>visible := (action_id (action m) \<noteq> insertMarkdownCellBelow)\<rparr>"
  let ?v2 = "\<lambda>m::IActionModel. m\<lparr>visible := False\<rparr>"
  have r1: "?r \<le> length acts" using hiddenCount_le[of w 0 "map action acts"] by simp
  have len: "length (snd (hiddenLoop w (0, []) acts)) = ?r"
    using r1 by (simp add: hiddenLoop_take)
  have p: "map action (filter (\<lambda>m. visible m \<and> notToggle tid m) (map ?v1 (take ?r ?pa1)))
      = map action (filter (\<lambda>m. action_id (action m) \<noteq> insertMarkdownCellBelow \<and> notToggle tid m)
          (take ?r ?pa))"
    unfolding take_map map_map
    by (rule out_filter_map) (simp_all add: notToggle_def)
  have "map action (filter (\<lambda>m. \<not> visible m \<and> notToggle tid m) (map ?v2 (drop (length acts) ?pa1)))
      = map action (filter (notToggle tid) (drop (length acts) ?pa))"
    unfolding drop_map map_map
    by (rule out_filter_map) (simp_all add: notToggle_def)
  then have s: "map action (filter (\<lambda>m. \<not> visible m \<and> notToggle tid m)
      (map ?v2 (drop (length acts) ?pa1))) = []"
    unfolding assms filter_notToggle_rest by simp
  have st: "map ?v1 (take ?r ?pa1) @ map ?v2 (drop ?r ?pa1)
      = map (\<lambda>m. m\<lparr>visible := (action_id (action m) \<noteq> insertMarkdownCellBelow),
                          renderLabel := False\<rparr>) (take ?r ?pa)
              @ map (\<lambda>m. m\<lparr>visible := False, renderLabel := False\<rparr>) (drop ?r ?pa)"
    by (simp add: take_map drop_map)
  show ?thesis
    unfolding calcuateWithAlllabelsHidden_def Let_def len
      take_prefix_rewrite drop_prefix_rewrite_le[OF r1] p s st
    by simp
qed

lemma dynamic_sentinel_only:
  assumes "primaryActions tb \<noteq> []" and "withoutToggle tid (primaryActions tb) = []"
  shows "DynamicLabelStrategy_calculateActions tid tb w =
     Inr (\<lparr>primaryOut = [], secondaryOut = secondaryActions tb\<rparr>, tb)"
proof -
  from assms obtain m where "primaryActions tb = [m]" "action_id (action m) = tid"
    using withoutToggle_Nil_iff by blast
  then show ?thesis using assms
    by (simp add: DynamicLabelStrategy_calculateActions_def Let_def notToggle_def)
qed

lemma dynamic_all_labels:
  assumes "withoutToggle tid (primaryActions tb) \<noteq> []"
    and "sum_list (map size_px (withoutToggle tid (primaryActions tb)))
         + (int (length (withoutToggle tid (primaryActions tb))) - 1) * ACTION_PADDING \<le> w"
  shows "DynamicLabelStrategy_calculateActions tid tb w =
     Inr (\<lparr>primaryOut = map action (filter (notToggle tid) (primaryActions tb)),
           secondaryOut = secondaryActions tb\<rparr>,
          tb\<lparr>primaryActions :=
               map (\<lambda>m. m\<lparr>visible := True, renderLabel := True\<rparr>) (primaryActions tb)\<rparr>)"
proof -
  have ne: "primaryActions tb \<noteq> []" using assms(1) by (auto simp add: withoutToggle_def)
  have p: "map action (filter (\<lambda>m. visible m \<and> notToggle tid m)
             (map (\<lambda>m. m\<lparr>visible := True, renderLabel := True\<rparr>) (primaryActions tb)))
      = map action (filter (notToggle tid) (primaryActions tb))"
    by (rule out_filter_map) (simp_all add: notToggle_def)
  show ?thesis
    unfolding DynamicLabelStrategy_calculateActions_def Let_def p
    using assms ne by simp
qed

lemma dynamic_full_degrade:
  assumes "withoutToggle tid (primaryActions tb) \<noteq> []"
    and "\<not> sum_list (map size_px (withoutToggle tid (primaryActions tb)))
         + (int (length (withoutToggle tid (primaryActions tb))) - 1) * ACTION_PADDING \<le> w"
    and "int (length (withoutToggle tid (primaryActions tb))) * ICON_ONLY_ACTION_WIDTH
          + (int (length (withoutToggle tid (primaryActions tb))) - 1) * ACTION_PADDING > w
         \<or> breakpointLoop w 0 0 (- 1) (withoutToggle tid (primaryActions tb)) < 0"
  shows "DynamicLabelStrategy_calculateActions tid tb w =
     Inr (calcuateWithAlllabelsHidden tid tb (withoutToggle tid (primaryActions tb)) w)"
proof -
  have ne: "primaryActions tb \<noteq> []" using assms(1) by (auto simp add: withoutToggle_def)
  show ?thesis
    unfolding DynamicLabelStrategy_calculateActions_def Let_def
    using assms ne by auto
qed

lemma breakpointLoop_bound:
  "l < i + int (length xs) \<Longrightarrow> breakpointLoop w sm i l xs < i + int (length xs)"
proof (induction xs arbitrary: sm i l)
  case Nil then show ?case by simp
next
  case (Cons x xs)
  have step: "\<And>sm' l'. l' < (i + 1) + int (length xs)
      \<Longrightarrow> breakpointLoop w sm' (i + 1) l' xs < i + int (length (x # xs))"
    using Cons.IH[of _ "i + 1"] by (simp add: add.assoc)
  have a: "i < (i + 1) + int (length xs)" by simp
  have b: "l < (i + 1) + int (length xs)" using Cons.prems by simp
  show ?case using step[OF a] step[OF b] by (simp add: Let_def)
qed

lemma dynamic_breakpoint:
  assumes "withoutToggle tid (primaryActions tb) \<noteq> []"
    and "\<not> sum_list (map size_px (withoutToggle tid (primaryActions tb)))
         + (int (length (withoutToggle tid (primaryActions tb))) - 1) * ACTION_PADDING \<le> w"
    and "\<not> int (length (withoutToggle tid (primaryActions tb))) * ICON_ONLY_ACTION_WIDTH
          + (int (length (withoutToggle tid (primaryActions tb))) - 1) * ACTION_PADDING > w"
    and "\<not> breakpointLoop w 0 0 (- 1) (withoutToggle tid (primaryActions tb)) < 0"
  shows "DynamicLabelStrategy_calculateActions tid tb w =
     (let n = nat (breakpointLoop w 0 0 (- 1) (withoutToggle tid (primaryActions tb)) + 1) in
      Inr (\<lparr>primaryOut = map action (filter (notToggle tid) (primaryActions tb)),
           secondaryOut = secondaryActions tb\<rparr>,
          tb\<lparr>primaryActions :=
               map (\<lambda>m. m\<lparr>visible := True, renderLabel := True\<rparr>) (take n (primaryActions tb))
               @ map (\<lambda>m. m\<lparr>visible := True, renderLabel := False\<rparr>) (drop n (primaryActions tb))\<rparr>))"
proof -
  let ?pa = "primaryActions tb"
  let ?acts = "withoutToggle tid ?pa"
  let ?n = "nat (breakpointLoop w 0 0 (- 1) ?acts + 1)"
  have ne: "?pa \<noteq> []" using assms(1) by (auto simp add: withoutToggle_def)
  have "breakpointLoop w 0 0 (- 1) ?acts < 0 + int (length ?acts)"
    by (rule breakpointLoop_bound) simp
  then have "?n \<le> length ?acts" by simp
  then have len: "length (take ?n ?acts) = ?n" by simp
  have p1: "map action (filter (\<lambda>m. visible m \<and> notToggle tid m)
          (map (\<lambda>m. m\<lparr>visible := True, renderLabel := True\<rparr>) (take ?n ?pa)))
      = map action (filter (notToggle tid) (take ?n ?pa))"
    by (rule out_filter_map) (simp_all add: notToggle_def)
  have p2: "map action (filter (\<lambda>m. visible m \<and> notToggle tid m)
          (map (\<lambda>m. m\<lparr>visible := True, renderLabel := False\<rparr>) (drop ?n ?pa)))
      = map action (filter (notToggle tid) (drop ?n ?pa))"
    by (rule out_filter_map) (simp_all add: notToggle_def)
  have "map action (filter (\<lambda>m. visible m \<and> notToggle tid m)
          (map (\<lambda>m. m\<lparr>visible := True, renderLabel := True\<rparr>) (take ?n ?pa)))
        @ map action (filter (\<lambda>m. visible m \<and> notToggle tid m)
          (map (\<lambda>m. m\<lparr>visible := True, renderLabel := False\<rparr>) (drop ?n ?pa)))
      = map action (filter (notToggle tid) (take ?n ?pa))
        @ map action (filter (notToggle tid) (drop ?n ?pa))"
    by (simp only: p1 p2)
  also have "\<dots> = map action (filter (notToggle tid) ?pa)"
    by (metis append_take_drop_id filter_append map_append)
  finally have p: "map action (filter (\<lambda>m. visible m \<and> notToggle tid m)
          (map (\<lambda>m. m\<lparr>visible := True, renderLabel := True\<rparr>) (take ?n ?pa)
           @ map (\<lambda>m. m\<lparr>visible := True, renderLabel := False\<rparr>) (drop ?n ?pa)))
      = map action (filter (notToggle tid) ?pa)" by simp
  show ?thesis
    unfolding DynamicLabelStrategy_calculateActions_def Let_def len p
    using assms ne by simp
qed

section \<open>DynamicLabelStrategy: everything fits with labels\<close>

text \<open>
  C1. When the primary list without its trailing toggle-more action is not empty and its
  total labeled width (the sizes plus \<open>ACTION_PADDING\<close> between consecutive actions) is at
  most \<open>maxWidth\<close>, \<open>DynamicLabelStrategy.calculateActions\<close> sets \<open>visible\<close> and
  \<open>renderLabel\<close> on every model, returns every action but those carrying the toggle-more
  id as primary (which is the list without its trailing sentinel when no other action carries
  that id), and returns the secondary list as it was.
\<close>

theorem dynamic_all_labels_fit:
  assumes "withoutToggle tid (primaryActions tb) \<noteq> []"
    and "sum_list (map size_px (withoutToggle tid (primaryActions tb)))
         + (int (length (withoutToggle tid (primaryActions tb))) - 1) * ACTION_PADDING \<le> maxWidth"
  shows "\<exists>tb'. DynamicLabelStrategy_calculateActions tid tb maxWidth =
            Inr (\<lparr>primaryOut = map action (filter (notToggle tid) (primaryActions tb)),
                  secondaryOut = secondaryActions tb\<rparr>, tb')
          \<and> primaryActions tb' =
              map (\<lambda>m. m\<lparr>visible := True, renderLabel := True\<rparr>) (primaryActions tb)
          \<and> (\<forall>m \<in> set (primaryActions tb'). visible m \<and> renderLabel m)
          \<and> secondaryActions tb' = secondaryActions tb
          \<and> ((\<forall>m \<in> set (withoutToggle tid (primaryActions tb)). notToggle tid m) \<longrightarrow>
               map action (filter (notToggle tid) (primaryActions tb))
               = map action (withoutToggle tid (primaryActions tb)))"
proof -
  have ne: "primaryActions tb \<noteq> []" using assms(1) by (auto simp add: withoutToggle_def)
  have "(\<forall>m \<in> set (withoutToggle tid (primaryActions tb)). notToggle tid m) \<longrightarrow>
        filter (notToggle tid) (primaryActions tb) = withoutToggle tid (primaryActions tb)"
    unfolding filter_notToggle_split[OF ne] by simp
  then show ?thesis
    unfolding dynamic_all_labels[OF assms] by auto
qed

theorem dynamic_all_labels_fit_witness:
  "withoutToggle toggleMore (primaryActions fiveActions) \<noteq> []
   \<and> sum_list (map size_px (withoutToggle toggleMore (primaryActions fiveActions)))
       + (int (length (withoutToggle toggleMore (primaryActions fiveActions))) - 1) * ACTION_PADDING
     = 257
   \<and> (\<exists>tb'. DynamicLabelStrategy_calculateActions toggleMore fiveActions 300 =
            Inr (\<lparr>primaryOut = map action (take 5 (primaryActions fiveActions)),
                  secondaryOut = [overflowAction]\<rparr>, tb')
          \<and> (\<forall>m \<in> set (primaryActions tb'). visible m \<and> renderLabel m))"
proof -
  have wt: "withoutToggle toggleMore (primaryActions fiveActions) = take 5 (primaryActions fiveActions)"
    by (simp add: withoutToggle_def hasToggleMoreAction_def fiveActions_def model_def toggleMore_def)
  have h1: "withoutToggle toggleMore (primaryActions fiveActions) \<noteq> []"
    unfolding wt by (simp add: fiveActions_def)
  have tot: "sum_list (map size_px (withoutToggle toggleMore (primaryActions fiveActions)))
       + (int (length (withoutToggle toggleMore (primaryActions fiveActions))) - 1) * ACTION_PADDING
     = 257"
    unfolding wt by (simp add: fiveActions_def model_def ACTION_PADDING_def)
  then have h2: "sum_list (map size_px (withoutToggle toggleMore (primaryActions fiveActions)))
       + (int (length (withoutToggle toggleMore (primaryActions fiveActions))) - 1) * ACTION_PADDING
     \<le> 300" by simp
  have nt: "\<forall>m \<in> set (withoutToggle toggleMore (primaryActions fiveActions)). notToggle toggleMore m"
    unfolding wt by (simp add: fiveActions_def model_def notToggle_def toggleMore_def)
  have sec: "secondaryActions fiveActions = [overflowAction]" by (simp add: fiveActions_def)
  from dynamic_all_labels_fit[OF h1 h2] nt show ?thesis
    using h1 tot unfolding wt sec by auto
qed

section \<open>FixedLabellessStrategy: the view item\<close>

text \<open>
  C8. For an action whose id is not the kernel-picker id,
  \<open>FixedLabellessStrategy.actionProvider\<close> never yields \<open>ActionViewWithLabel\<close>, whatever
  the toolbar's models and their \<open>renderLabel\<close> flags are; the kernel-picker id always
  yields \<open>NotebookKernelActionViewItem\<close>.
\<close>

theorem labelless_never_labeled:
  "(action_id act \<noteq> kernelId \<longrightarrow>
      FixedLabellessStrategy_actionProvider kernelId tb act \<noteq> ActionViewWithLabel)
   \<and> (action_id act = kernelId \<longrightarrow>
      FixedLabellessStrategy_actionProvider kernelId tb act = NotebookKernelActionViewItem)"
  by (simp add: FixedLabellessStrategy_actionProvider_def)

theorem labelless_never_labeled_witness:
  "action_id (action (hd (primaryActions fiveActions))) \<noteq> selectKernel
   \<and> renderLabel (hd (primaryActions fiveActions))
   \<and> FixedLabelStrategy_actionProvider selectKernel fiveActions
        (action (hd (primaryActions fiveActions))) = ActionViewWithLabel
   \<and> FixedLabellessStrategy_actionProvider selectKernel fiveActions
        (action (hd (primaryActions fiveActions))) \<noteq> ActionViewWithLabel
   \<and> FixedLabellessStrategy_actionProvider selectKernel fiveActions
        \<lparr>action_id = selectKernel, action_class = MenuItemAction\<rparr> = NotebookKernelActionViewItem"
  using labelless_never_labeled[of "action (hd (primaryActions fiveActions))" selectKernel fiveActions]
    labelless_never_labeled[of "\<lparr>action_id = selectKernel, action_class = MenuItemAction\<rparr>" selectKernel fiveActions]
  by (simp add: fiveActions_def model_def selectKernel_def FixedLabelStrategy_actionProvider_def)

section \<open>NotebookStatusBarService: the results of the providers\<close>

lemma consultedProviders_append:
  "consultedProviders (ps1 @ ps2) vt = consultedProviders ps1 vt @ consultedProviders ps2 vt"
  by (simp add: consultedProviders_def)

lemma getStatusBarItemsForDocument_append:
  "getStatusBarItemsForDocument (ps1 @ ps2) docUri vt
   = getStatusBarItemsForDocument ps1 docUri vt @ getStatusBarItemsForDocument ps2 docUri vt"
  by (simp add: getStatusBarItemsForDocument_def consultedProviders_append)

lemma registered_in_order:
  "foldl registerStatusBarItemProvider ps regs = ps @ regs"
  by (induction regs arbitrary: ps) (simp_all add: registerStatusBarItemProvider_def)

text \<open>
  C9. \<open>getStatusBarItemsForDocument\<close> returns one entry per consulted provider, in their
  order. The entry of a provider whose \<open>provideStatusBarItems\<close> throws or resolves to nothing
  is \<open>{ items: [] }\<close>, the entry of any other provider is the list it resolved to, and around
  a failing provider the entries of the providers before and after it are those they
  contribute without it.
\<close>

theorem provider_failure_isolated:
  fixes providers :: "('uri, 'item) INotebookStatusBarItemProvider list"
  shows
  "length (getStatusBarItemsForDocument providers docUri vt)
     = length (consultedProviders providers vt)
   \<and> (\<forall>i < length (consultedProviders providers vt).
        (case provideStatusBarItems (consultedProviders providers vt ! i) docUri of
           Resolves itemList \<Rightarrow> getStatusBarItemsForDocument providers docUri vt ! i = itemList
         | ResolvesNothing \<Rightarrow> getStatusBarItemsForDocument providers docUri vt ! i = \<lparr>items = []\<rparr>
         | Throws e \<Rightarrow> getStatusBarItemsForDocument providers docUri vt ! i = \<lparr>items = []\<rparr>))
   \<and> (\<forall>before (p :: ('uri, 'item) INotebookStatusBarItemProvider) after.
        (viewType p = vt \<or> viewType p = ''*'')
        \<and> (provideStatusBarItems p docUri = ResolvesNothing
             \<or> (\<exists>e. provideStatusBarItems p docUri = Throws e))
        \<longrightarrow> getStatusBarItemsForDocument (before @ p # after) docUri vt
            = getStatusBarItemsForDocument before docUri vt
              @ \<lparr>items = []\<rparr> # getStatusBarItemsForDocument after docUri vt)"
proof -
  have one: "length (getStatusBarItemsForDocument providers docUri vt)
     = length (consultedProviders providers vt)"
    by (simp add: getStatusBarItemsForDocument_def)
  have slot: "\<forall>i < length (consultedProviders providers vt).
        (case provideStatusBarItems (consultedProviders providers vt ! i) docUri of
           Resolves itemList \<Rightarrow> getStatusBarItemsForDocument providers docUri vt ! i = itemList
         | ResolvesNothing \<Rightarrow> getStatusBarItemsForDocument providers docUri vt ! i = \<lparr>items = []\<rparr>
         | Throws e \<Rightarrow> getStatusBarItemsForDocument providers docUri vt ! i = \<lparr>items = []\<rparr>)"
    by (simp add: getStatusBarItemsForDocument_def provideOrEmpty_def
        split: ProviderOutcome.splits)
  have others: "getStatusBarItemsForDocument (before @ p # after) docUri vt
            = getStatusBarItemsForDocument before docUri vt
              @ \<lparr>items = []\<rparr> # getStatusBarItemsForDocument after docUri vt"
    if a: "(viewType p = vt \<or> viewType p = ''*'')
        \<and> (provideStatusBarItems p docUri = ResolvesNothing
             \<or> (\<exists>e. provideStatusBarItems p docUri = Throws e))"
    for before after :: "('uri, 'item) INotebookStatusBarItemProvider list"
      and p :: "('uri, 'item) INotebookStatusBarItemProvider"
  proof -
    from a have "getStatusBarItemsForDocument [p] docUri vt = [\<lparr>items = []\<rparr>]"
      by (auto simp add: getStatusBarItemsForDocument_def consultedProviders_def provideOrEmpty_def)
    then show ?thesis
      using getStatusBarItemsForDocument_append[of before "[p] @ after" docUri vt]
        getStatusBarItemsForDocument_append[of "[p]" after docUri vt] by simp
  qed
  have others_all: "\<forall>before (p :: ('uri, 'item) INotebookStatusBarItemProvider) after.
        (viewType p = vt \<or> viewType p = ''*'')
        \<and> (provideStatusBarItems p docUri = ResolvesNothing
             \<or> (\<exists>e. provideStatusBarItems p docUri = Throws e))
        \<longrightarrow> getStatusBarItemsForDocument (before @ p # after) docUri vt
            = getStatusBarItemsForDocument before docUri vt
              @ \<lparr>items = []\<rparr> # getStatusBarItemsForDocument after docUri vt"
    by (intro allI impI) (erule others)
  show ?thesis by (intro conjI one slot others_all)
qed

theorem provider_failure_isolated_witness:
  "getStatusBarItemsForDocument [jupyterProvider, throwingProvider, jupyterProvider]
      ''file:///a.ipynb'' ''jupyter-notebook''
   = [\<lparr>items = [''kernel: idle'']\<rparr>, \<lparr>items = []\<rparr>, \<lparr>items = [''kernel: idle'']\<rparr>]"
proof -
  have v: "viewType throwingProvider = ''jupyter-notebook'' \<or> viewType throwingProvider = ''*''"
    by (simp add: throwingProvider_def)
  have t: "provideStatusBarItems throwingProvider ''file:///a.ipynb'' = ResolvesNothing
      \<or> (\<exists>e. provideStatusBarItems throwingProvider ''file:///a.ipynb'' = Throws e)"
    by (simp add: throwingProvider_def)
  have j: "getStatusBarItemsForDocument [jupyterProvider] ''file:///a.ipynb'' ''jupyter-notebook''
      = [\<lparr>items = [''kernel: idle'']\<rparr>]"
    by (simp add: getStatusBarItemsForDocument_def consultedProviders_def provideOrEmpty_def
        jupyterProvider_def)
  from provider_failure_isolated[of "[]" "''file:///a.ipynb''" "''jupyter-notebook''"]
  have "getStatusBarItemsForDocument ([jupyterProvider] @ throwingProvider # [jupyterProvider])
          ''file:///a.ipynb'' ''jupyter-notebook''
        = getStatusBarItemsForDocument [jupyterProvider] ''file:///a.ipynb'' ''jupyter-notebook''
          @ \<lparr>items = []\<rparr>
          # getStatusBarItemsForDocument [jupyterProvider] ''file:///a.ipynb'' ''jupyter-notebook''"
    using v t by blast
  then show ?thesis unfolding j by simp
qed

text \<open>
  C10. The providers consulted for a document are those registered with the document's view
  type or with \<open>*\<close>, in registration order, and the result holds the entries of exactly
  these; a provider registered with another view type is not among the consulted ones, adds
  no entry, and the result does not depend on what its \<open>provideStatusBarItems\<close> would do.
\<close>

theorem consulted_by_view_type:
  fixes regs providers :: "('uri, 'item) INotebookStatusBarItemProvider list"
  shows
  "consultedProviders (foldl registerStatusBarItemProvider [] regs) vt
     = filter (\<lambda>p. viewType p = vt \<or> viewType p = ''*'') regs
   \<and> getStatusBarItemsForDocument (foldl registerStatusBarItemProvider [] regs) docUri vt
     = map (provideOrEmpty docUri) (filter (\<lambda>p. viewType p = vt \<or> viewType p = ''*'') regs)
   \<and> (\<forall>p \<in> set (consultedProviders providers vt). viewType p = vt \<or> viewType p = ''*'')
   \<and> (\<forall>before (p :: ('uri, 'item) INotebookStatusBarItemProvider) after f.
        viewType p \<noteq> vt \<and> viewType p \<noteq> ''*''
        \<longrightarrow> p \<notin> set (consultedProviders (before @ p # after) vt)
          \<and> getStatusBarItemsForDocument (before @ p # after) docUri vt
            = getStatusBarItemsForDocument (before @ after) docUri vt
          \<and> getStatusBarItemsForDocument (before @ p\<lparr>provideStatusBarItems := f\<rparr> # after) docUri vt
            = getStatusBarItemsForDocument (before @ p # after) docUri vt)"
  by (auto simp add: registered_in_order getStatusBarItemsForDocument_def consultedProviders_def)

theorem consulted_by_view_type_witness:
  "consultedProviders
      (foldl registerStatusBarItemProvider [] [otherProvider, throwingProvider, jupyterProvider])
      ''jupyter-notebook''
     = [throwingProvider, jupyterProvider]
   \<and> getStatusBarItemsForDocument [otherProvider, throwingProvider, jupyterProvider]
        ''file:///a.ipynb'' ''jupyter-notebook''
     = getStatusBarItemsForDocument [throwingProvider, jupyterProvider]
        ''file:///a.ipynb'' ''jupyter-notebook''
   \<and> getStatusBarItemsForDocument [otherProvider, throwingProvider, jupyterProvider]
        ''file:///a.ipynb'' ''jupyter-notebook''
     = [\<lparr>items = []\<rparr>, \<lparr>items = [''kernel: idle'']\<rparr>]"
proof -
  have o: "viewType otherProvider \<noteq> ''jupyter-notebook'' \<and> viewType otherProvider \<noteq> ''*''"
    by (simp add: otherProvider_def)
  have f: "filter (\<lambda>p. viewType p = ''jupyter-notebook'' \<or> viewType p = ''*'')
             [otherProvider, throwingProvider, jupyterProvider] = [throwingProvider, jupyterProvider]"
    by (simp add: otherProvider_def throwingProvider_def jupyterProvider_def)
  note c = consulted_by_view_type[of "[otherProvider, throwingProvider, jupyterProvider]"
      "''jupyter-notebook''" "''file:///a.ipynb''" "[]"]
  from c have c1: "consultedProviders
      (foldl registerStatusBarItemProvider [] [otherProvider, throwingProvider, jupyterProvider])
      ''jupyter-notebook'' = [throwingProvider, jupyterProvider]"
    unfolding f by blast
  from c o have c2: "getStatusBarItemsForDocument ([] @ otherProvider # [throwingProvider, jupyterProvider])
        ''file:///a.ipynb'' ''jupyter-notebook''
     = getStatusBarItemsForDocument ([] @ [throwingProvider, jupyterProvider])
        ''file:///a.ipynb'' ''jupyter-notebook''"
    by blast
  have c3: "getStatusBarItemsForDocument [throwingProvider, jupyterProvider]
        ''file:///a.ipynb'' ''jupyter-notebook'' = [\<lparr>items = []\<rparr>, \<lparr>items = [''kernel: idle'']\<rparr>]"
    by (simp add: getStatusBarItemsForDocument_def consultedProviders_def provideOrEmpty_def
        throwingProvider_def jupyterProvider_def)
  show ?thesis using c1 c2 c3 by simp
qed

section \<open>The toggle-more action in the outputs\<close>

lemma fixed_strategies:
  "strategy_calculateActions Always = calculateFixedActions"
  "strategy_calculateActions Never = calculateFixedActions"
  "strategy_calculateActions Dynamic = DynamicLabelStrategy_calculateActions"
  by (simp_all add: strategy_calculateActions_def FixedLabelStrategy_calculateActions_def
      FixedLabellessStrategy_calculateActions_def)

lemma filtered_ids:
  "\<forall>a \<in> set (map action (filter (\<lambda>m. P m \<and> notToggle tid m) xs)). action_id a \<noteq> tid"
  by (auto simp add: notToggle_def)

lemma filtered_ids':
  "\<forall>a \<in> set (map action (filter (notToggle tid) xs)). action_id a \<noteq> tid"
  by (auto simp add: notToggle_def)

lemma dynamic_result:
  assumes "primaryActions tb \<noteq> []"
  shows "\<exists>c n tb'. DynamicLabelStrategy_calculateActions tid tb w =
      Inr (\<lparr>primaryOut = map action (filter (\<lambda>m. (c \<longrightarrow> action_id (action m) \<noteq> insertMarkdownCellBelow)
                                                \<and> notToggle tid m) (take n (primaryActions tb))),
            secondaryOut = secondaryActions tb\<rparr>, tb')"
proof -
  let ?pa = "primaryActions tb"
  let ?acts = "withoutToggle tid ?pa"
  let ?fit = "sum_list (map size_px ?acts) + (int (length ?acts) - 1) * ACTION_PADDING \<le> w"
  let ?icons = "int (length ?acts) * ICON_ONLY_ACTION_WIDTH
                  + (int (length ?acts) - 1) * ACTION_PADDING > w"
  let ?bp = "breakpointLoop w 0 0 (- 1) ?acts"
  let ?R = "\<lambda>c n tb'. DynamicLabelStrategy_calculateActions tid tb w =
      Inr (\<lparr>primaryOut = map action (filter (\<lambda>m. (c \<longrightarrow> action_id (action m) \<noteq> insertMarkdownCellBelow)
                                                \<and> notToggle tid m) (take n ?pa)),
            secondaryOut = secondaryActions tb\<rparr>, tb')"
  consider (sentinel) "?acts = []" | (labels) "?acts \<noteq> []" "?fit"
    | (degrade) "?acts \<noteq> []" "\<not> ?fit" "?icons \<or> ?bp < 0"
    | (breakpoint) "?acts \<noteq> []" "\<not> ?fit" "\<not> ?icons" "\<not> ?bp < 0" by blast
  then show ?thesis
  proof cases
    case sentinel
    have "?R False 0 tb"
      unfolding dynamic_sentinel_only[OF assms sentinel] by simp
    then show ?thesis by (intro exI)
  next
    case labels
    have "?R False (length ?pa)
        (tb\<lparr>primaryActions := map (\<lambda>m. m\<lparr>visible := True, renderLabel := True\<rparr>) ?pa\<rparr>)"
      unfolding dynamic_all_labels[OF labels] by (simp add: notToggle_def[abs_def])
    then show ?thesis by (intro exI)
  next
    case degrade
    have "?R True (hiddenCount w 0 (map action ?acts))
        (snd (calcuateWithAlllabelsHidden tid tb ?acts w))"
      unfolding dynamic_full_degrade[OF degrade] calcuateWithAlllabelsHidden_eq[OF refl] Let_def
      by simp
    then show ?thesis by (intro exI)
  next
    case breakpoint
    have "?R False (length ?pa)
        (tb\<lparr>primaryActions :=
               map (\<lambda>m. m\<lparr>visible := True, renderLabel := True\<rparr>)
                 (take (nat (?bp + 1)) ?pa)
               @ map (\<lambda>m. m\<lparr>visible := True, renderLabel := False\<rparr>)
                 (drop (nat (?bp + 1)) ?pa)\<rparr>)"
      unfolding dynamic_breakpoint[OF breakpoint] Let_def by (simp add: notToggle_def[abs_def])
    then show ?thesis by (intro exI)
  qed
qed

text \<open>
  C2. With the toggle-more action as the last primary action, the outputs of
  \<open>calculateActions\<close> of each of the three strategies, at every width, hold no action
  with the toggle-more id in the primary output and none in what is put in front of the
  toolbar's secondary actions; the secondary actions of the toolbar themselves are appended
  as they are, so the secondary output is free of that id when they are.
\<close>

theorem toggle_excluded_from_outputs:
  assumes "primaryActions tb \<noteq> []"
    and "action_id (action (last (primaryActions tb))) = tid"
  shows "\<exists>r tb'. strategy_calculateActions mode tid tb w = Inr (r, tb')
          \<and> (\<forall>a \<in> set (primaryOut r). action_id a \<noteq> tid)
          \<and> (\<exists>overflow. secondaryOut r = overflow @ secondaryActions tb
                \<and> (\<forall>a \<in> set overflow. action_id a \<noteq> tid))
          \<and> ((\<forall>a \<in> set (secondaryActions tb). action_id a \<noteq> tid)
               \<longrightarrow> (\<forall>a \<in> set (secondaryOut r). action_id a \<noteq> tid))"
proof -
  have fixed: "\<exists>r tb'. calculateFixedActions tid tb w = Inr (r, tb')
          \<and> (\<forall>a \<in> set (primaryOut r). action_id a \<noteq> tid)
          \<and> (\<exists>overflow. secondaryOut r = overflow @ secondaryActions tb
                \<and> (\<forall>a \<in> set overflow. action_id a \<noteq> tid))"
    unfolding calculateFixedActions_eq[OF assms(1)] Let_def
    by (intro exI conjI, rule refl) (auto simp add: notToggle_def)
  have dyn: "\<exists>r tb'. DynamicLabelStrategy_calculateActions tid tb w = Inr (r, tb')
          \<and> (\<forall>a \<in> set (primaryOut r). action_id a \<noteq> tid)
          \<and> (\<exists>overflow. secondaryOut r = overflow @ secondaryActions tb
                \<and> (\<forall>a \<in> set overflow. action_id a \<noteq> tid))"
  proof -
    from dynamic_result[OF assms(1), of tid w] obtain c n tb' where
      d: "DynamicLabelStrategy_calculateActions tid tb w =
      Inr (\<lparr>primaryOut = map action (filter (\<lambda>m. (c \<longrightarrow> action_id (action m) \<noteq> insertMarkdownCellBelow)
                                                \<and> notToggle tid m) (take n (primaryActions tb))),
            secondaryOut = secondaryActions tb\<rparr>, tb')" by blast
    let ?r = "\<lparr>primaryOut = map action (filter (\<lambda>m. (c \<longrightarrow> action_id (action m) \<noteq> insertMarkdownCellBelow)
                                                \<and> notToggle tid m) (take n (primaryActions tb))),
            secondaryOut = secondaryActions tb\<rparr>"
    have p: "\<forall>a \<in> set (primaryOut ?r). action_id a \<noteq> tid"
      by (auto simp add: notToggle_def)
    have "secondaryOut ?r = [] @ secondaryActions tb \<and> (\<forall>a \<in> set []. action_id a \<noteq> tid)"
      by simp
    then have "\<exists>overflow. secondaryOut ?r = overflow @ secondaryActions tb
                \<and> (\<forall>a \<in> set overflow. action_id a \<noteq> tid)" by (rule exI)
    with d p show ?thesis by (intro exI[of _ ?r] exI[of _ tb']) simp
  qed
  have "\<exists>r tb'. strategy_calculateActions mode tid tb w = Inr (r, tb')
          \<and> (\<forall>a \<in> set (primaryOut r). action_id a \<noteq> tid)
          \<and> (\<exists>overflow. secondaryOut r = overflow @ secondaryActions tb
                \<and> (\<forall>a \<in> set overflow. action_id a \<noteq> tid))"
    using fixed dyn by (cases mode) (simp_all only: fixed_strategies)
  then obtain r tb' overflow where r: "strategy_calculateActions mode tid tb w = Inr (r, tb')"
      "\<forall>a \<in> set (primaryOut r). action_id a \<noteq> tid"
      "secondaryOut r = overflow @ secondaryActions tb" "\<forall>a \<in> set overflow. action_id a \<noteq> tid"
    by blast
  then have "(\<forall>a \<in> set (secondaryActions tb). action_id a \<noteq> tid)
               \<longrightarrow> (\<forall>a \<in> set (secondaryOut r). action_id a \<noteq> tid)" by auto
  with r show ?thesis by blast
qed


theorem toggle_excluded_from_outputs_witness:
  "primaryActions fiveActions \<noteq> []
   \<and> action_id (action (last (primaryActions fiveActions))) = toggleMore
   \<and> toggleMore \<notin> set (map action_id (secondaryActions fiveActions))
   \<and> map_sum id fst (strategy_calculateActions Always toggleMore fiveActions 50)
       = Inr \<lparr>primaryOut = map action (take 1 (primaryActions fiveActions)),
              secondaryOut = map action (take 4 (drop 1 (primaryActions fiveActions)))
                             @ [overflowAction]\<rparr>
   \<and> (\<forall>mode. \<exists>r tb'. strategy_calculateActions mode toggleMore fiveActions 50 = Inr (r, tb')
          \<and> (\<forall>a \<in> set (primaryOut r). action_id a \<noteq> toggleMore)
          \<and> (\<forall>a \<in> set (secondaryOut r). action_id a \<noteq> toggleMore))"
proof -
  have h1: "primaryActions fiveActions \<noteq> []" by (simp add: fiveActions_def)
  have h2: "action_id (action (last (primaryActions fiveActions))) = toggleMore"
    by (simp add: fiveActions_def model_def)
  have h3: "\<forall>a \<in> set (secondaryActions fiveActions). action_id a \<noteq> toggleMore"
    by (simp add: fiveActions_def overflowAction_def toggleMore_def)
  have fixed: "map_sum id fst (strategy_calculateActions Always toggleMore fiveActions 50)
       = Inr \<lparr>primaryOut = map action (take 1 (primaryActions fiveActions)),
              secondaryOut = map action (take 4 (drop 1 (primaryActions fiveActions)))
                             @ [overflowAction]\<rparr>"
    by (simp add: strategy_calculateActions_def FixedLabelStrategy_calculateActions_def
        calculateFixedActions_def withoutToggle_def hasToggleMoreAction_def notToggle_def
        Let_def fiveActions_def model_def toggleMore_def ACTION_PADDING_def)
  have "\<exists>r tb'. strategy_calculateActions mode toggleMore fiveActions 50 = Inr (r, tb')
          \<and> (\<forall>a \<in> set (primaryOut r). action_id a \<noteq> toggleMore)
          \<and> (\<forall>a \<in> set (secondaryOut r). action_id a \<noteq> toggleMore)" for mode
  proof -
    from toggle_excluded_from_outputs[OF h1 h2, of mode 50] obtain r tb' where
      r: "strategy_calculateActions mode toggleMore fiveActions 50 = Inr (r, tb')"
        "\<forall>a \<in> set (primaryOut r). action_id a \<noteq> toggleMore"
        "(\<forall>a \<in> set (secondaryActions fiveActions). action_id a \<noteq> toggleMore)
               \<longrightarrow> (\<forall>a \<in> set (secondaryOut r). action_id a \<noteq> toggleMore)"
      by blast
    from r(3) h3 have "\<forall>a \<in> set (secondaryOut r). action_id a \<noteq> toggleMore" by (rule mp)
    with r(1,2) show ?thesis by (intro exI[of _ r] exI[of _ tb']) simp
  qed
  moreover have "toggleMore \<notin> set (map action_id (secondaryActions fiveActions))"
    using h3 by auto
  ultimately show ?thesis using h1 h2 fixed by simp
qed

section \<open>Monotonicity in the available width\<close>

lemma filter_conj_le:
  "length (filter (\<lambda>m. P m \<and> Q m) ys) \<le> length (filter Q ys)"
  by (induction ys) simp_all

lemma filter_conj_take_le:
  "length (filter (\<lambda>m. P m \<and> Q m) (take n xs)) \<le> length (filter Q xs)"
proof -
  have "length (filter (\<lambda>m. P m \<and> Q m) (take n xs)) \<le> length (filter Q (take n xs))"
    by (rule filter_conj_le)
  also have "\<dots> \<le> length (filter Q (take (max n (length xs)) xs))"
    by (rule filter_take_mono) simp
  finally show ?thesis by simp
qed

lemma dynamic_full:
  assumes "withoutToggle tid (primaryActions tb) \<noteq> []"
    and "sum_list (map size_px (withoutToggle tid (primaryActions tb)))
           + (int (length (withoutToggle tid (primaryActions tb))) - 1) * ACTION_PADDING \<le> w
         \<or> (\<not> int (length (withoutToggle tid (primaryActions tb))) * ICON_ONLY_ACTION_WIDTH
                + (int (length (withoutToggle tid (primaryActions tb))) - 1) * ACTION_PADDING > w
            \<and> \<not> breakpointLoop w 0 0 (- 1) (withoutToggle tid (primaryActions tb)) < 0)"
  shows "\<exists>tb'. DynamicLabelStrategy_calculateActions tid tb w =
     Inr (\<lparr>primaryOut = map action (filter (notToggle tid) (primaryActions tb)),
           secondaryOut = secondaryActions tb\<rparr>, tb')"
proof (cases "sum_list (map size_px (withoutToggle tid (primaryActions tb)))
           + (int (length (withoutToggle tid (primaryActions tb))) - 1) * ACTION_PADDING \<le> w")
  case True
  show ?thesis unfolding dynamic_all_labels[OF assms(1) True] by (intro exI) (rule refl)
next
  case False
  with assms(2) have "\<not> int (length (withoutToggle tid (primaryActions tb))) * ICON_ONLY_ACTION_WIDTH
                + (int (length (withoutToggle tid (primaryActions tb))) - 1) * ACTION_PADDING > w"
    and "\<not> breakpointLoop w 0 0 (- 1) (withoutToggle tid (primaryActions tb)) < 0" by blast+
  from dynamic_breakpoint[OF assms(1) False this] show ?thesis
    unfolding Let_def by (intro exI) (erule trans, rule refl)
qed

lemma dynamic_degrade_out:
  assumes "withoutToggle tid (primaryActions tb) \<noteq> []"
    and "\<not> sum_list (map size_px (withoutToggle tid (primaryActions tb)))
         + (int (length (withoutToggle tid (primaryActions tb))) - 1) * ACTION_PADDING \<le> w"
    and "int (length (withoutToggle tid (primaryActions tb))) * ICON_ONLY_ACTION_WIDTH
          + (int (length (withoutToggle tid (primaryActions tb))) - 1) * ACTION_PADDING > w
         \<or> breakpointLoop w 0 0 (- 1) (withoutToggle tid (primaryActions tb)) < 0"
  shows "\<exists>tb'. DynamicLabelStrategy_calculateActions tid tb w =
     Inr (\<lparr>primaryOut = map action (filter (\<lambda>m. action_id (action m) \<noteq> insertMarkdownCellBelow
                                                  \<and> notToggle tid m)
              (take (hiddenCount w 0 (map action (withoutToggle tid (primaryActions tb))))
                 (primaryActions tb))),
           secondaryOut = secondaryActions tb\<rparr>, tb')"
  unfolding dynamic_full_degrade[OF assms] calcuateWithAlllabelsHidden_eq[OF refl] Let_def
  by (intro exI) (rule refl)

lemma dynamic_bounded:
  assumes "primaryActions tb \<noteq> []"
  shows "\<exists>r tb'. DynamicLabelStrategy_calculateActions tid tb w = Inr (r, tb')
           \<and> length (primaryOut r) \<le> length (filter (notToggle tid) (primaryActions tb))"
proof -
  from dynamic_result[OF assms, of tid w] obtain c n tb' where
    d: "DynamicLabelStrategy_calculateActions tid tb w =
      Inr (\<lparr>primaryOut = map action (filter (\<lambda>m. (c \<longrightarrow> action_id (action m) \<noteq> insertMarkdownCellBelow)
                                                \<and> notToggle tid m) (take n (primaryActions tb))),
            secondaryOut = secondaryActions tb\<rparr>, tb')" by blast
  show ?thesis unfolding d
    by (intro exI conjI, rule refl) (simp add: filter_conj_take_le)
qed

lemma dynamic_monotone:
  assumes ne: "primaryActions tb \<noteq> []" and le: "w2 \<le> w1"
  shows "\<exists>r1 tb1 r2 tb2.
           DynamicLabelStrategy_calculateActions tid tb w1 = Inr (r1, tb1)
         \<and> DynamicLabelStrategy_calculateActions tid tb w2 = Inr (r2, tb2)
         \<and> length (primaryOut r2) \<le> length (primaryOut r1)"
proof -
  let ?pa = "primaryActions tb"
  let ?acts = "withoutToggle tid ?pa"
  let ?fit = "\<lambda>w. sum_list (map size_px ?acts) + (int (length ?acts) - 1) * ACTION_PADDING \<le> w"
  let ?icons = "\<lambda>w. int (length ?acts) * ICON_ONLY_ACTION_WIDTH
                  + (int (length ?acts) - 1) * ACTION_PADDING > w"
  let ?bp = "\<lambda>w. breakpointLoop w 0 0 (- 1) ?acts"
  consider (sentinel) "?acts = []"
    | (full) "?acts \<noteq> []" "?fit w1 \<or> (\<not> ?icons w1 \<and> \<not> ?bp w1 < 0)"
    | (degrade) "?acts \<noteq> []" "\<not> ?fit w1" "?icons w1 \<or> ?bp w1 < 0" by blast
  then show ?thesis
  proof cases
    case sentinel
    show ?thesis
      unfolding dynamic_sentinel_only[OF ne sentinel] by (intro exI conjI, rule refl, rule refl) simp
  next
    case full
    from dynamic_full[OF full] obtain tb1 where
      1: "DynamicLabelStrategy_calculateActions tid tb w1 =
         Inr (\<lparr>primaryOut = map action (filter (notToggle tid) ?pa),
               secondaryOut = secondaryActions tb\<rparr>, tb1)" by blast
    from dynamic_bounded[OF ne, of tid w2] obtain r2 tb2 where
      2: "DynamicLabelStrategy_calculateActions tid tb w2 = Inr (r2, tb2)"
        "length (primaryOut r2) \<le> length (filter (notToggle tid) ?pa)" by blast
    from 1 2 show ?thesis by (intro exI conjI) (assumption, assumption, simp)
  next
    case degrade
    have nofit: "\<not> ?fit w2" using degrade(2) le by linarith
    have "?bp w1 < 0 \<Longrightarrow> ?bp w2 < 0"
      using breakpointLoop_mono[OF le, of 0 "- 1" "- 1" 0 ?acts] by linarith
    moreover have "?icons w1 \<Longrightarrow> ?icons w2" using le by linarith
    ultimately have deg2: "?icons w2 \<or> ?bp w2 < 0" using degrade(3) by blast
    from dynamic_degrade_out[OF degrade] obtain tb1 where
      1: "DynamicLabelStrategy_calculateActions tid tb w1 =
          Inr (\<lparr>primaryOut = map action (filter (\<lambda>m. action_id (action m) \<noteq> insertMarkdownCellBelow
                                                  \<and> notToggle tid m)
              (take (hiddenCount w1 0 (map action ?acts)) ?pa)),
           secondaryOut = secondaryActions tb\<rparr>, tb1)" by blast
    from dynamic_degrade_out[OF degrade(1) nofit deg2] obtain tb2 where
      2: "DynamicLabelStrategy_calculateActions tid tb w2 =
          Inr (\<lparr>primaryOut = map action (filter (\<lambda>m. action_id (action m) \<noteq> insertMarkdownCellBelow
                                                  \<and> notToggle tid m)
              (take (hiddenCount w2 0 (map action ?acts)) ?pa)),
           secondaryOut = secondaryActions tb\<rparr>, tb2)" by blast
    have "hiddenCount w2 0 (map action ?acts) \<le> hiddenCount w1 0 (map action ?acts)"
      by (rule hiddenCount_mono[OF le])
    then have 3: "length (filter (\<lambda>m. action_id (action m) \<noteq> insertMarkdownCellBelow \<and> notToggle tid m)
              (take (hiddenCount w2 0 (map action ?acts)) ?pa))
        \<le> length (filter (\<lambda>m. action_id (action m) \<noteq> insertMarkdownCellBelow \<and> notToggle tid m)
              (take (hiddenCount w1 0 (map action ?acts)) ?pa))"
      by (rule filter_take_mono)
    from 1 2 3 show ?thesis by (intro exI conjI) (assumption, assumption, simp)
  qed
qed

lemma fixed_monotone:
  assumes ne: "primaryActions tb \<noteq> []" and le: "w2 \<le> w1"
  shows "\<exists>r1 tb1 r2 tb2.
           calculateFixedActions tid tb w1 = Inr (r1, tb1)
         \<and> calculateFixedActions tid tb w2 = Inr (r2, tb2)
         \<and> length (primaryOut r2) \<le> length (primaryOut r1)"
  unfolding calculateFixedActions_eq[OF ne] Let_def
  by (intro exI conjI, rule refl, rule refl)
     (simp add: filter_take_mono fixedCount_mono[OF le])

text \<open>
  C6. For a fixed toolbar state with a non-empty primary list and each of the three
  strategies, \<open>calculateActions\<close> returns at the smaller of two widths at most as many
  primary actions as at the larger one.
\<close>

theorem primary_count_monotone:
  assumes "primaryActions tb \<noteq> []" and "w2 \<le> w1"
  shows "\<exists>r1 tb1 r2 tb2.
           strategy_calculateActions mode tid tb w1 = Inr (r1, tb1)
         \<and> strategy_calculateActions mode tid tb w2 = Inr (r2, tb2)
         \<and> length (primaryOut r2) \<le> length (primaryOut r1)"
  using fixed_monotone[OF assms] dynamic_monotone[OF assms]
  by (cases mode) (simp_all only: fixed_strategies)

theorem primary_count_monotone_witness:
  "primaryActions fiveActions \<noteq> [] \<and> (50::int) \<le> 150
   \<and> map_sum id (\<lambda>(r, tb'). length (primaryOut r))
        (strategy_calculateActions Dynamic toggleMore fiveActions 150) = Inr 5
   \<and> map_sum id (\<lambda>(r, tb'). length (primaryOut r))
        (strategy_calculateActions Dynamic toggleMore fiveActions 50) = Inr 2
   \<and> map_sum id (\<lambda>(r, tb'). length (primaryOut r))
        (strategy_calculateActions Always toggleMore fiveActions 150) = Inr 3
   \<and> map_sum id (\<lambda>(r, tb'). length (primaryOut r))
        (strategy_calculateActions Always toggleMore fiveActions 50) = Inr 1
   \<and> (\<forall>mode. \<exists>r1 tb1 r2 tb2.
           strategy_calculateActions mode toggleMore fiveActions 150 = Inr (r1, tb1)
         \<and> strategy_calculateActions mode toggleMore fiveActions 50 = Inr (r2, tb2)
         \<and> length (primaryOut r2) \<le> length (primaryOut r1))"
proof -
  note eval = strategy_calculateActions_def FixedLabelStrategy_calculateActions_def
      calculateFixedActions_def DynamicLabelStrategy_calculateActions_def
      calcuateWithAlllabelsHidden_def withoutToggle_def hasToggleMoreAction_def notToggle_def
      Let_def fiveActions_def model_def toggleMore_def insertMarkdownCellBelow_def
      ICON_ONLY_ACTION_WIDTH_def ACTION_PADDING_def
  have h1: "primaryActions fiveActions \<noteq> []" by (simp add: fiveActions_def)
  have h2: "(50::int) \<le> 150" by simp
  have d1: "map_sum id (\<lambda>(r, tb'). length (primaryOut r))
        (strategy_calculateActions Dynamic toggleMore fiveActions 150) = Inr 5"
    by (simp add: eval)
  have d2: "map_sum id (\<lambda>(r, tb'). length (primaryOut r))
        (strategy_calculateActions Dynamic toggleMore fiveActions 50) = Inr 2"
    by (simp add: eval)
  have f1: "map_sum id (\<lambda>(r, tb'). length (primaryOut r))
        (strategy_calculateActions Always toggleMore fiveActions 150) = Inr 3"
    by (simp add: eval)
  have f2: "map_sum id (\<lambda>(r, tb'). length (primaryOut r))
        (strategy_calculateActions Always toggleMore fiveActions 50) = Inr 1"
    by (simp add: eval)
  have "\<forall>mode. \<exists>r1 tb1 r2 tb2.
           strategy_calculateActions mode toggleMore fiveActions 150 = Inr (r1, tb1)
         \<and> strategy_calculateActions mode toggleMore fiveActions 50 = Inr (r2, tb2)
         \<and> length (primaryOut r2) \<le> length (primaryOut r1)"
    using primary_count_monotone[OF h1 h2] by blast
  with h1 h2 d1 d2 f1 f2 show ?thesis by (intro conjI)
qed

section \<open>Repeating a layout pass\<close>

lemma prefix_rewrite_preserves:
  assumes "\<And>m. h (f m) = h m" and "\<And>m. h (g m) = h m"
  shows "map h (map f (take n xs) @ map g (drop n xs)) = map h xs"
proof -
  have "map h (map f (take n xs) @ map g (drop n xs)) = map h (take n xs) @ map h (drop n xs)"
    by (simp add: assms)
  also have "\<dots> = map h xs" by (metis append_take_drop_id map_append)
  finally show ?thesis .
qed

lemma prefix_rewrite_idem:
  assumes "\<And>m. f (f m) = f m" and "\<And>m. g (g m) = g m"
  shows "map f (take n (map f (take n xs) @ map g (drop n xs)))
         @ map g (drop n (map f (take n xs) @ map g (drop n xs)))
         = map f (take n xs) @ map g (drop n xs)"
  unfolding take_prefix_rewrite drop_prefix_rewrite by (simp add: assms)

lemma skeleton_decisions:
  assumes a: "map action pa' = map action pa" and s: "map size_px pa' = map size_px pa"
  shows "length (withoutToggle tid pa') = length (withoutToggle tid pa)"
    and "map size_px (withoutToggle tid pa') = map size_px (withoutToggle tid pa)"
    and "map action (withoutToggle tid pa') = map action (withoutToggle tid pa)"
    and "breakpointLoop w sm i l (withoutToggle tid pa') = breakpointLoop w sm i l (withoutToggle tid pa)"
    and "(withoutToggle tid pa' = []) = (withoutToggle tid pa = [])"
proof -
  show l: "length (withoutToggle tid pa') = length (withoutToggle tid pa)"
    by (rule withoutToggle_cong(2)[OF a])
  show sz: "map size_px (withoutToggle tid pa') = map size_px (withoutToggle tid pa)"
    using withoutToggle_cong_map[OF a, of size_px tid] withoutToggle_cong_map[OF refl, of size_px tid pa]
    by (simp add: s)
  show ac: "map action (withoutToggle tid pa') = map action (withoutToggle tid pa)"
    using withoutToggle_cong_map[OF a, of action tid] withoutToggle_cong_map[OF refl, of action tid pa]
    by (simp add: a)
  show "breakpointLoop w sm i l (withoutToggle tid pa') = breakpointLoop w sm i l (withoutToggle tid pa)"
    by (rule breakpointLoop_cong[OF ac sz])
  show "(withoutToggle tid pa' = []) = (withoutToggle tid pa = [])"
    using l by (metis length_0_conv)
qed

lemma fixed_idempotent:
  assumes ne: "primaryActions tb \<noteq> []"
  shows "\<exists>r tb'. calculateFixedActions tid tb w = Inr (r, tb')
          \<and> calculateFixedActions tid tb' w = Inr (r, tb')"
proof -
  let ?pa = "primaryActions tb"
  let ?n = "fixedCount w 0 (map size_px (withoutToggle tid ?pa))"
  let ?vT = "\<lambda>m::IActionModel. m\<lparr>visible := True\<rparr>"
  let ?vF = "\<lambda>m::IActionModel. m\<lparr>visible := False\<rparr>"
  let ?pa' = "map ?vT (take ?n ?pa) @ map ?vF (drop ?n ?pa)"
  let ?tb' = "tb\<lparr>primaryActions := ?pa'\<rparr>"
  let ?r = "\<lparr>primaryOut = map action (filter (notToggle tid) (take ?n ?pa)),
            secondaryOut = map action (filter (notToggle tid) (drop ?n ?pa)) @ secondaryActions tb\<rparr>"
  have first: "calculateFixedActions tid tb w = Inr (?r, ?tb')"
    unfolding calculateFixedActions_eq[OF ne] Let_def by (rule refl)
  have a: "map action ?pa' = map action ?pa" by (rule prefix_rewrite_preserves) simp_all
  have s: "map size_px ?pa' = map size_px ?pa" by (rule prefix_rewrite_preserves) simp_all
  have pa': "primaryActions ?tb' = ?pa'" by simp
  have ne': "primaryActions ?tb' \<noteq> []" using ne a unfolding pa' by (metis map_is_Nil_conv)
  have n: "fixedCount w 0 (map size_px (withoutToggle tid ?pa')) = ?n"
    by (simp only: skeleton_decisions(2)[OF a s])
  have p: "map action (filter (notToggle tid) (map ?vT (take ?n ?pa)))
      = map action (filter (notToggle tid) (take ?n ?pa))"
    by (rule out_filter_map) (simp_all add: notToggle_def)
  have q: "map action (filter (notToggle tid) (map ?vF (drop ?n ?pa)))
      = map action (filter (notToggle tid) (drop ?n ?pa))"
    by (rule out_filter_map) (simp_all add: notToggle_def)
  have i: "map ?vT (take ?n ?pa') @ map ?vF (drop ?n ?pa') = ?pa'"
    by (rule prefix_rewrite_idem) simp_all
  have second: "calculateFixedActions tid ?tb' w = Inr (?r, ?tb')"
    unfolding calculateFixedActions_eq[OF ne'] Let_def pa' n i
    unfolding take_prefix_rewrite drop_prefix_rewrite p q
    by simp
  from first second show ?thesis by blast
qed


lemma dynamic_idempotent:
  assumes ne: "primaryActions tb \<noteq> []"
  shows "\<exists>r tb'. DynamicLabelStrategy_calculateActions tid tb w = Inr (r, tb')
          \<and> DynamicLabelStrategy_calculateActions tid tb' w = Inr (r, tb')"
proof -
  let ?pa = "primaryActions tb"
  let ?acts = "withoutToggle tid ?pa"
  let ?fit = "sum_list (map size_px ?acts) + (int (length ?acts) - 1) * ACTION_PADDING \<le> w"
  let ?icons = "int (length ?acts) * ICON_ONLY_ACTION_WIDTH
                  + (int (length ?acts) - 1) * ACTION_PADDING > w"
  let ?bp = "breakpointLoop w 0 0 (- 1) ?acts"
  let ?md = "\<lambda>m. action_id (action m) \<noteq> insertMarkdownCellBelow \<and> notToggle tid m"
  consider (sentinel) "?acts = []" | (labels) "?acts \<noteq> []" "?fit"
    | (degrade) "?acts \<noteq> []" "\<not> ?fit" "?icons \<or> ?bp < 0"
    | (breakpoint) "?acts \<noteq> []" "\<not> ?fit" "\<not> ?icons" "\<not> ?bp < 0" by blast
  then show ?thesis
  proof cases
    case sentinel
    from dynamic_sentinel_only[OF ne sentinel, of w] show ?thesis by blast
  next
    case labels
    let ?f = "\<lambda>m::IActionModel. m\<lparr>visible := True, renderLabel := True\<rparr>"
    let ?pa' = "map ?f ?pa"
    let ?tb' = "tb\<lparr>primaryActions := ?pa'\<rparr>"
    let ?r = "\<lparr>primaryOut = map action (filter (notToggle tid) ?pa),
              secondaryOut = secondaryActions tb\<rparr>"
    have first: "DynamicLabelStrategy_calculateActions tid tb w = Inr (?r, ?tb')"
      by (rule dynamic_all_labels[OF labels])
    have a: "map action ?pa' = map action ?pa" by simp
    have s: "map size_px ?pa' = map size_px ?pa" by simp
    note d = skeleton_decisions[OF a s, where tid = tid]
    have pa': "primaryActions ?tb' = ?pa'" by simp
    have l1: "withoutToggle tid (primaryActions ?tb') \<noteq> []"
      unfolding pa' d(5) by (rule labels(1))
    have l2: "sum_list (map size_px (withoutToggle tid (primaryActions ?tb')))
         + (int (length (withoutToggle tid (primaryActions ?tb'))) - 1) * ACTION_PADDING \<le> w"
      unfolding pa' d(1) d(2) by (rule labels(2))
    have p: "map action (filter (notToggle tid) ?pa') = map action (filter (notToggle tid) ?pa)"
      by (rule out_filter_map) (simp_all add: notToggle_def)
    have i: "map ?f ?pa' = ?pa'" by simp
    have second: "DynamicLabelStrategy_calculateActions tid ?tb' w = Inr (?r, ?tb')"
      unfolding dynamic_all_labels[OF l1 l2] pa' p i by simp
    from first second show ?thesis by blast
  next
    case degrade
    let ?n = "hiddenCount w 0 (map action ?acts)"
    let ?f = "\<lambda>m::IActionModel. m\<lparr>visible := (action_id (action m) \<noteq> insertMarkdownCellBelow),
                          renderLabel := False\<rparr>"
    let ?g = "\<lambda>m::IActionModel. m\<lparr>visible := False, renderLabel := False\<rparr>"
    let ?pa' = "map ?f (take ?n ?pa) @ map ?g (drop ?n ?pa)"
    let ?tb' = "tb\<lparr>primaryActions := ?pa'\<rparr>"
    let ?r = "\<lparr>primaryOut = map action (filter ?md (take ?n ?pa)),
              secondaryOut = secondaryActions tb\<rparr>"
    have first: "DynamicLabelStrategy_calculateActions tid tb w = Inr (?r, ?tb')"
      unfolding dynamic_full_degrade[OF degrade] calcuateWithAlllabelsHidden_eq[OF refl] Let_def
      by (rule refl)
    have a: "map action ?pa' = map action ?pa" by (rule prefix_rewrite_preserves) simp_all
    have s: "map size_px ?pa' = map size_px ?pa" by (rule prefix_rewrite_preserves) simp_all
    note d = skeleton_decisions[OF a s, where tid = tid]
    have pa': "primaryActions ?tb' = ?pa'" by simp
    have l1: "withoutToggle tid (primaryActions ?tb') \<noteq> []"
      unfolding pa' d(5) by (rule degrade(1))
    have l2: "\<not> sum_list (map size_px (withoutToggle tid (primaryActions ?tb')))
         + (int (length (withoutToggle tid (primaryActions ?tb'))) - 1) * ACTION_PADDING \<le> w"
      unfolding pa' d(1) d(2) by (rule degrade(2))
    have l3: "int (length (withoutToggle tid (primaryActions ?tb'))) * ICON_ONLY_ACTION_WIDTH
          + (int (length (withoutToggle tid (primaryActions ?tb'))) - 1) * ACTION_PADDING > w
         \<or> breakpointLoop w 0 0 (- 1) (withoutToggle tid (primaryActions ?tb')) < 0"
      unfolding pa' d(1) d(4) by (rule degrade(3))
    have n: "hiddenCount w 0 (map action (withoutToggle tid ?pa')) = ?n"
      by (simp only: d(3))
    have p: "map action (filter ?md (map ?f (take ?n ?pa))) = map action (filter ?md (take ?n ?pa))"
      by (rule out_filter_map) (simp_all add: notToggle_def)
    have i: "map ?f (take ?n ?pa') @ map ?g (drop ?n ?pa') = ?pa'"
      by (rule prefix_rewrite_idem) simp_all
    note h = calcuateWithAlllabelsHidden_eq[OF refl, of tid ?tb' w]
    have second: "DynamicLabelStrategy_calculateActions tid ?tb' w = Inr (?r, ?tb')"
      unfolding dynamic_full_degrade[OF l1 l2 l3] h Let_def
      unfolding pa' n i
      unfolding take_prefix_rewrite p
      by simp
    from first second show ?thesis by blast
  next
    case breakpoint
    let ?n = "nat (?bp + 1)"
    let ?f = "\<lambda>m::IActionModel. m\<lparr>visible := True, renderLabel := True\<rparr>"
    let ?g = "\<lambda>m::IActionModel. m\<lparr>visible := True, renderLabel := False\<rparr>"
    let ?pa' = "map ?f (take ?n ?pa) @ map ?g (drop ?n ?pa)"
    let ?tb' = "tb\<lparr>primaryActions := ?pa'\<rparr>"
    let ?r = "\<lparr>primaryOut = map action (filter (notToggle tid) ?pa),
              secondaryOut = secondaryActions tb\<rparr>"
    have first: "DynamicLabelStrategy_calculateActions tid tb w = Inr (?r, ?tb')"
      unfolding dynamic_breakpoint[OF breakpoint] Let_def by (rule refl)
    have a: "map action ?pa' = map action ?pa" by (rule prefix_rewrite_preserves) simp_all
    have s: "map size_px ?pa' = map size_px ?pa" by (rule prefix_rewrite_preserves) simp_all
    note d = skeleton_decisions[OF a s, where tid = tid]
    have pa': "primaryActions ?tb' = ?pa'" by simp
    have l1: "withoutToggle tid (primaryActions ?tb') \<noteq> []"
      unfolding pa' d(5) by (rule breakpoint(1))
    have l2: "\<not> sum_list (map size_px (withoutToggle tid (primaryActions ?tb')))
         + (int (length (withoutToggle tid (primaryActions ?tb'))) - 1) * ACTION_PADDING \<le> w"
      unfolding pa' d(1) d(2) by (rule breakpoint(2))
    have l3: "\<not> int (length (withoutToggle tid (primaryActions ?tb'))) * ICON_ONLY_ACTION_WIDTH
          + (int (length (withoutToggle tid (primaryActions ?tb'))) - 1) * ACTION_PADDING > w"
      unfolding pa' d(1) by (rule breakpoint(3))
    have l4: "\<not> breakpointLoop w 0 0 (- 1) (withoutToggle tid (primaryActions ?tb')) < 0"
      unfolding pa' d(4) by (rule breakpoint(4))
    have p: "map action (filter (notToggle tid) ?pa') = map action (filter (notToggle tid) ?pa)"
    proof -
      have "map action (filter (notToggle tid) ?pa')
          = map action (filter (notToggle tid) (map ?f (take ?n ?pa)))
            @ map action (filter (notToggle tid) (map ?g (drop ?n ?pa)))" by simp
      also have "map action (filter (notToggle tid) (map ?f (take ?n ?pa)))
          = map action (filter (notToggle tid) (take ?n ?pa))"
        by (rule out_filter_map) (simp_all add: notToggle_def)
      also have "map action (filter (notToggle tid) (map ?g (drop ?n ?pa)))
          = map action (filter (notToggle tid) (drop ?n ?pa))"
        by (rule out_filter_map) (simp_all add: notToggle_def)
      also have "map action (filter (notToggle tid) (take ?n ?pa))
            @ map action (filter (notToggle tid) (drop ?n ?pa))
          = map action (filter (notToggle tid) ?pa)"
        by (metis append_take_drop_id filter_append map_append)
      finally show ?thesis .
    qed
    have i: "map ?f (take ?n ?pa') @ map ?g (drop ?n ?pa') = ?pa'"
      by (rule prefix_rewrite_idem) simp_all
    have second: "DynamicLabelStrategy_calculateActions tid ?tb' w = Inr (?r, ?tb')"
      unfolding dynamic_breakpoint[OF l1 l2 l3 l4] Let_def pa' d(4) i p
      by simp
    from first second show ?thesis by blast
  qed
qed

text \<open>
  C7. A second call of \<open>calculateActions\<close> with the same width, on the toolbar as the
  first call left it (the same actions and sizes, with the \<open>visible\<close> and \<open>renderLabel\<close>
  fields the first call wrote), returns the same primary and secondary actions, for each of
  the three strategies; it also leaves the models as they were after the first call.
\<close>

theorem calculateActions_idempotent:
  assumes "primaryActions tb \<noteq> []"
  shows "\<exists>r tb'. strategy_calculateActions mode tid tb w = Inr (r, tb')
          \<and> strategy_calculateActions mode tid tb' w = Inr (r, tb')"
  using fixed_idempotent[OF assms] dynamic_idempotent[OF assms]
  by (cases mode) (simp_all only: fixed_strategies)

theorem calculateActions_idempotent_witness:
  "primaryActions fiveActions \<noteq> []
   \<and> (\<exists>r tb'. strategy_calculateActions Dynamic toggleMore fiveActions 50 = Inr (r, tb')
          \<and> strategy_calculateActions Dynamic toggleMore tb' 50 = Inr (r, tb')
          \<and> primaryOut r = map action (take 2 (primaryActions fiveActions))
          \<and> secondaryOut r = [overflowAction]
          \<and> map visible (primaryActions tb') = [True, True, False, False, False, False]
          \<and> tb' \<noteq> fiveActions)
   \<and> (\<forall>mode. \<exists>r tb'. strategy_calculateActions mode toggleMore fiveActions 50 = Inr (r, tb')
          \<and> strategy_calculateActions mode toggleMore tb' 50 = Inr (r, tb'))"
proof -
  note eval = strategy_calculateActions_def DynamicLabelStrategy_calculateActions_def
      calcuateWithAlllabelsHidden_def withoutToggle_def hasToggleMoreAction_def notToggle_def
      Let_def fiveActions_def model_def toggleMore_def insertMarkdownCellBelow_def
      ICON_ONLY_ACTION_WIDTH_def ACTION_PADDING_def
  have h: "primaryActions fiveActions \<noteq> []" by (simp add: fiveActions_def)
  from calculateActions_idempotent[OF h, of Dynamic toggleMore 50] obtain r tb' where
    twice: "strategy_calculateActions Dynamic toggleMore fiveActions 50 = Inr (r, tb')"
      "strategy_calculateActions Dynamic toggleMore tb' 50 = Inr (r, tb')" by blast
  have first: "strategy_calculateActions Dynamic toggleMore fiveActions 50
      = Inr (\<lparr>primaryOut = map action (take 2 (primaryActions fiveActions)),
              secondaryOut = [overflowAction]\<rparr>,
             fiveActions\<lparr>primaryActions :=
               map (\<lambda>m. m\<lparr>visible := True, renderLabel := False\<rparr>)
                 (take 2 (primaryActions fiveActions))
               @ map (\<lambda>m. m\<lparr>visible := False, renderLabel := False\<rparr>)
                 (drop 2 (primaryActions fiveActions))\<rparr>)"
    by (simp add: eval)
  from twice(1) first have r: "r = \<lparr>primaryOut = map action (take 2 (primaryActions fiveActions)),
              secondaryOut = [overflowAction]\<rparr>"
    and tb': "tb' = fiveActions\<lparr>primaryActions :=
               map (\<lambda>m. m\<lparr>visible := True, renderLabel := False\<rparr>)
                 (take 2 (primaryActions fiveActions))
               @ map (\<lambda>m. m\<lparr>visible := False, renderLabel := False\<rparr>)
                 (drop 2 (primaryActions fiveActions))\<rparr>" by simp_all
  have v: "map visible (primaryActions tb') = [True, True, False, False, False, False]"
    unfolding tb' by (simp add: fiveActions_def model_def)
  have ne: "tb' \<noteq> fiveActions"
  proof
    assume "tb' = fiveActions"
    then have "map visible (primaryActions tb') = map visible (primaryActions fiveActions)"
      by simp
    then show False unfolding v by (simp add: fiveActions_def model_def)
  qed
  have one: "\<exists>r tb'. strategy_calculateActions Dynamic toggleMore fiveActions 50 = Inr (r, tb')
          \<and> strategy_calculateActions Dynamic toggleMore tb' 50 = Inr (r, tb')
          \<and> primaryOut r = map action (take 2 (primaryActions fiveActions))
          \<and> secondaryOut r = [overflowAction]
          \<and> map visible (primaryActions tb') = [True, True, False, False, False, False]
          \<and> tb' \<noteq> fiveActions"
    using twice r v ne by (intro exI[of _ r] exI[of _ tb']) simp
  have all: "\<forall>mode. \<exists>r tb'. strategy_calculateActions mode toggleMore fiveActions 50 = Inr (r, tb')
          \<and> strategy_calculateActions mode toggleMore tb' 50 = Inr (r, tb')"
    using calculateActions_idempotent[OF h] by blast
  from h one all show ?thesis by (intro conjI)
qed

section \<open>DynamicLabelStrategy: the full-degrade path\<close>

lemma fiveActions_withoutToggle:
  "withoutToggle toggleMore (primaryActions fiveActions) = take 5 (primaryActions fiveActions)"
  by (simp add: withoutToggle_def hasToggleMoreAction_def fiveActions_def model_def toggleMore_def)

text \<open>
  C3. At width 50 the five actions take the full-degrade path of
  \<open>DynamicLabelStrategy.calculateActions\<close>. The walk keeps the first two of them, which
  become the primary output; the three that do not fit are not put in front of the
  secondary actions: the secondary output is the toolbar's secondary list alone, where the
  claim has the separator and the last two actions followed by that list. The same call
  is what \<open>_computeSizes\<close> makes for a container 95 pixels wide.
\<close>

theorem full_degrade_loses_overflow:
  "DynamicLabelStrategy_calculateActions toggleMore fiveActions 50
     = Inr (calcuateWithAlllabelsHidden toggleMore fiveActions
              (withoutToggle toggleMore (primaryActions fiveActions)) 50)
   \<and> snd (hiddenLoop 50 (0, []) (withoutToggle toggleMore (primaryActions fiveActions)))
     = take 2 (primaryActions fiveActions)
   \<and> fst (calcuateWithAlllabelsHidden toggleMore fiveActions
              (withoutToggle toggleMore (primaryActions fiveActions)) 50)
     = \<lparr>primaryOut = map action (take 2 (primaryActions fiveActions)),
        secondaryOut = [overflowAction]\<rparr>
   \<and> map action (drop 2 (withoutToggle toggleMore (primaryActions fiveActions))) @ [overflowAction]
     = [\<lparr>action_id = ''vs.actions.separator'', action_class = Separator\<rparr>,
        \<lparr>action_id = ''notebook.restart'', action_class = MenuItemAction\<rparr>,
        \<lparr>action_id = ''notebook.variables'', action_class = MenuItemAction\<rparr>,
        overflowAction]
   \<and> map_sum id fst (computeSizes toggleMore Dynamic (Some \<lparr>width = 95, height = 30\<rparr>) [] []
                        fiveActions)
     = Inr (Some \<lparr>primaryOut = map action (take 2 (primaryActions fiveActions)),
                  secondaryOut = [overflowAction]\<rparr>)"
  unfolding fiveActions_withoutToggle
  by (simp add: DynamicLabelStrategy_calculateActions_def calcuateWithAlllabelsHidden_def
      computeSizes_def strategy_calculateActions_def canBeVisible_def
      withoutToggle_def hasToggleMoreAction_def notToggle_def Let_def
      fiveActions_def model_def toggleMore_def overflowAction_def insertMarkdownCellBelow_def
      ICON_ONLY_ACTION_WIDTH_def ACTION_PADDING_def TOGGLE_MORE_ACTION_WIDTH_def)


lemma hiddenLoop_walk:
  "\<exists>k \<le> length xs.
     hiddenLoop w (sz, acc) xs
       = (sz + (ACTION_PADDING + ICON_ONLY_ACTION_WIDTH)
                * int (length (filter (\<lambda>m. action_id (action m) \<noteq> insertMarkdownCellBelow)
                                 (take k xs))),
          acc @ take k xs)
     \<and> (k < length xs \<longrightarrow>
          action_id (action (xs ! k)) \<noteq> insertMarkdownCellBelow
          \<and> \<not> sz + (ACTION_PADDING + ICON_ONLY_ACTION_WIDTH)
                * int (length (filter (\<lambda>m. action_id (action m) \<noteq> insertMarkdownCellBelow)
                                 (take k xs)))
              + ICON_ONLY_ACTION_WIDTH \<le> w)"
proof (induction xs arbitrary: sz acc)
  case Nil
  show ?case by simp
next
  case (Cons x xs)
  let ?nm = "\<lambda>m. action_id (action m) \<noteq> insertMarkdownCellBelow"
  let ?c = "ACTION_PADDING + ICON_ONLY_ACTION_WIDTH"
  show ?case
  proof (cases "action_id (action x) = insertMarkdownCellBelow")
    case True
    from Cons.IH[of sz "acc @ [x]"] obtain k where k: "k \<le> length xs"
      "hiddenLoop w (sz, acc @ [x]) xs
         = (sz + ?c * int (length (filter ?nm (take k xs))), (acc @ [x]) @ take k xs)"
      "k < length xs \<longrightarrow> ?nm (xs ! k)
         \<and> \<not> sz + ?c * int (length (filter ?nm (take k xs))) + ICON_ONLY_ACTION_WIDTH \<le> w"
      by blast
    show ?thesis
      by (rule exI[of _ "Suc k"]) (use True k in simp)
  next
    case False
    show ?thesis
    proof (cases "sz + ICON_ONLY_ACTION_WIDTH \<le> w")
      case fits: True
      from Cons.IH[of "sz + ?c" "acc @ [x]"] obtain k where k: "k \<le> length xs"
        "hiddenLoop w (sz + ?c, acc @ [x]) xs
           = (sz + ?c + ?c * int (length (filter ?nm (take k xs))), (acc @ [x]) @ take k xs)"
        "k < length xs \<longrightarrow> ?nm (xs ! k)
           \<and> \<not> sz + ?c + ?c * int (length (filter ?nm (take k xs))) + ICON_ONLY_ACTION_WIDTH \<le> w"
        by blast
      show ?thesis
        by (rule exI[of _ "Suc k"]) (use False fits k in \<open>simp add: algebra_simps\<close>)
    next
      case nofit: False
      show ?thesis
        by (rule exI[of _ 0]) (use False nofit in simp)
    qed
  qed
qed

text \<open>
  C4. The claim has the markdown action walked in every list and at every budget. In
  \<open>markdownToolbar\<close> at budget 10 the action before it does not fit, the loop breaks there,
  and the markdown action is not among \<open>renderActions\<close>.
\<close>

theorem markdown_not_reached:
  "markdownModel \<in> set (withoutToggle toggleMore (primaryActions markdownToolbar))
   \<and> action_id (action markdownModel) = insertMarkdownCellBelow
   \<and> markdownModel \<notin> set (snd (hiddenLoop 10 (0, [])
                             (withoutToggle toggleMore (primaryActions markdownToolbar))))"
  by (simp add: withoutToggle_def hasToggleMoreAction_def markdownToolbar_def markdownModel_def
      model_def toggleMore_def insertMarkdownCellBelow_def ICON_ONLY_ACTION_WIDTH_def)

text \<open>
  C4, as the code has it. In the full-degrade path, for every list and every budget: every
  model with the markdown id ends with \<open>visible = false\<close>, no action with that id is in the
  primary output, and the running total is the charge of the walked actions with other ids
  alone. The walk keeps a prefix of the list and stops only at an action with another id
  that does not fit; so a markdown action is pushed, without a test, whenever the walk
  reaches it, and is not walked when an earlier action does not fit.
\<close>

theorem markdown_in_full_degrade:
  assumes "acts = withoutToggle tid (primaryActions tb)"
    and "calcuateWithAlllabelsHidden tid tb acts w = (r, tb')"
    and "hiddenLoop w (0, []) acts = (charged, renderActions)"
  shows "(\<forall>m \<in> set (primaryActions tb').
            action_id (action m) = insertMarkdownCellBelow \<longrightarrow> \<not> visible m)
       \<and> (\<forall>a \<in> set (primaryOut r). action_id a \<noteq> insertMarkdownCellBelow)
       \<and> charged = (ACTION_PADDING + ICON_ONLY_ACTION_WIDTH)
                  * int (length (filter (\<lambda>m. action_id (action m) \<noteq> insertMarkdownCellBelow)
                                   renderActions))
       \<and> renderActions = take (length renderActions) acts
       \<and> (length renderActions < length acts \<longrightarrow>
             action_id (action (acts ! length renderActions)) \<noteq> insertMarkdownCellBelow
             \<and> \<not> charged + ICON_ONLY_ACTION_WIDTH \<le> w)"
proof -
  let ?n = "hiddenCount w 0 (map action acts)"
  let ?pa = "primaryActions tb"
  from assms(2) have r: "r = \<lparr>primaryOut = map action (filter (\<lambda>m. action_id (action m) \<noteq> insertMarkdownCellBelow
                                                  \<and> notToggle tid m) (take ?n ?pa)),
          secondaryOut = secondaryActions tb\<rparr>"
    and tb': "tb' = tb\<lparr>primaryActions :=
              map (\<lambda>m. m\<lparr>visible := (action_id (action m) \<noteq> insertMarkdownCellBelow),
                          renderLabel := False\<rparr>) (take ?n ?pa)
              @ map (\<lambda>m. m\<lparr>visible := False, renderLabel := False\<rparr>) (drop ?n ?pa)\<rparr>"
    unfolding calcuateWithAlllabelsHidden_eq[OF assms(1)] Let_def by simp_all
  have 1: "\<forall>m \<in> set (primaryActions tb').
            action_id (action m) = insertMarkdownCellBelow \<longrightarrow> \<not> visible m"
    unfolding tb' by auto
  have 2: "\<forall>a \<in> set (primaryOut r). action_id a \<noteq> insertMarkdownCellBelow"
    unfolding r by auto
  from hiddenLoop_walk[of acts w 0 "[]"] obtain k where k: "k \<le> length acts"
    "hiddenLoop w (0, []) acts
       = (0 + (ACTION_PADDING + ICON_ONLY_ACTION_WIDTH)
                * int (length (filter (\<lambda>m. action_id (action m) \<noteq> insertMarkdownCellBelow)
                                 (take k acts))),
          [] @ take k acts)"
    "k < length acts \<longrightarrow>
          action_id (action (acts ! k)) \<noteq> insertMarkdownCellBelow
          \<and> \<not> 0 + (ACTION_PADDING + ICON_ONLY_ACTION_WIDTH)
                * int (length (filter (\<lambda>m. action_id (action m) \<noteq> insertMarkdownCellBelow)
                                 (take k acts)))
              + ICON_ONLY_ACTION_WIDTH \<le> w"
    by blast
  from k(2) assms(3) have ra: "renderActions = take k acts"
    and ch: "charged = (ACTION_PADDING + ICON_ONLY_ACTION_WIDTH)
                * int (length (filter (\<lambda>m. action_id (action m) \<noteq> insertMarkdownCellBelow)
                                 (take k acts)))" by simp_all
  have len: "length renderActions = k" using ra k(1) by simp
  show ?thesis
    using 1 2 k(3) unfolding len unfolding ra ch by simp
qed

theorem markdown_in_full_degrade_witness:
  "fst (hiddenLoop 50 (0, []) (withoutToggle toggleMore (primaryActions markdownToolbar))) = 29
   \<and> snd (hiddenLoop 50 (0, []) (withoutToggle toggleMore (primaryActions markdownToolbar)))
       = [model ''notebook.cell.execute'' MenuItemAction 50, markdownModel]
   \<and> primaryOut (fst (calcuateWithAlllabelsHidden toggleMore markdownToolbar
         (withoutToggle toggleMore (primaryActions markdownToolbar)) 50))
       = [\<lparr>action_id = ''notebook.cell.execute'', action_class = MenuItemAction\<rparr>]
   \<and> map visible (filter (\<lambda>m. action_id (action m) = insertMarkdownCellBelow)
         (primaryActions (snd (calcuateWithAlllabelsHidden toggleMore markdownToolbar
            (withoutToggle toggleMore (primaryActions markdownToolbar)) 50))))
       = [False]"
proof -
  let ?acts = "withoutToggle toggleMore (primaryActions markdownToolbar)"
  have acts: "?acts = [model ''notebook.cell.execute'' MenuItemAction 50, markdownModel]"
    by (simp add: withoutToggle_def hasToggleMoreAction_def markdownToolbar_def markdownModel_def
        model_def toggleMore_def)
  have loop: "hiddenLoop 50 (0, []) ?acts
      = (29, [model ''notebook.cell.execute'' MenuItemAction 50, markdownModel])"
    unfolding acts
    by (simp add: markdownModel_def model_def insertMarkdownCellBelow_def
        ICON_ONLY_ACTION_WIDTH_def ACTION_PADDING_def)
  have out: "primaryOut (fst (calcuateWithAlllabelsHidden toggleMore markdownToolbar ?acts 50))
       = [\<lparr>action_id = ''notebook.cell.execute'', action_class = MenuItemAction\<rparr>]"
    unfolding calcuateWithAlllabelsHidden_def Let_def loop
    by (simp add: markdownToolbar_def markdownModel_def model_def notToggle_def toggleMore_def
        insertMarkdownCellBelow_def)
  have c: "calcuateWithAlllabelsHidden toggleMore markdownToolbar ?acts 50
      = (fst (calcuateWithAlllabelsHidden toggleMore markdownToolbar ?acts 50),
         snd (calcuateWithAlllabelsHidden toggleMore markdownToolbar ?acts 50))" by simp
  have st: "primaryActions (snd (calcuateWithAlllabelsHidden toggleMore markdownToolbar ?acts 50))
      = [(model ''notebook.cell.execute'' MenuItemAction 50)\<lparr>renderLabel := False\<rparr>,
         markdownModel\<lparr>visible := False, renderLabel := False\<rparr>,
         (model toggleMore OtherAction 21)\<lparr>visible := False, renderLabel := False\<rparr>]"
    unfolding calcuateWithAlllabelsHidden_def Let_def loop
    by (simp add: markdownToolbar_def markdownModel_def model_def toggleMore_def
        insertMarkdownCellBelow_def)
  from markdown_in_full_degrade[OF refl c loop]
  have "\<forall>m \<in> set (primaryActions (snd (calcuateWithAlllabelsHidden toggleMore markdownToolbar
         ?acts 50))). action_id (action m) = insertMarkdownCellBelow \<longrightarrow> \<not> visible m"
    by blast
  then have "map visible (filter (\<lambda>m. action_id (action m) = insertMarkdownCellBelow)
         (primaryActions (snd (calcuateWithAlllabelsHidden toggleMore markdownToolbar ?acts 50))))
       = [False]"
    unfolding st
    by (simp add: markdownModel_def model_def toggleMore_def insertMarkdownCellBelow_def)
  then show ?thesis using loop out by simp
qed

section \<open>Degenerate inputs\<close>

lemma strategies_return:
  assumes "primaryActions tb \<noteq> []"
  shows "\<exists>r tb'. strategy_calculateActions mode tid tb w = Inr (r, tb')"
proof -
  have f: "\<exists>r tb'. calculateFixedActions tid tb w = Inr (r, tb')"
    unfolding calculateFixedActions_eq[OF assms] Let_def by blast
  have d: "\<exists>r tb'. DynamicLabelStrategy_calculateActions tid tb w = Inr (r, tb')"
    using dynamic_result[OF assms, of tid w] by blast
  from f d show ?thesis by (cases mode) (simp_all only: fixed_strategies)
qed

lemma computeSizes_returns:
  "\<exists>res. computeSizes tid mode dimension leftItems rightWidths tb = Inr res"
proof (cases dimension)
  case None
  then show ?thesis by (simp add: computeSizes_def)
next
  case (Some d)
  let ?tb1 = "if length (primaryActions tb) = 0 \<and> length leftItems \<noteq> length (primaryActions tb)
              then cacheItemSizes leftItems tb else tb"
  let ?k = "(if length rightWidths \<noteq> 0 then hd rightWidths else 0) + ACTION_PADDING"
  let ?w = "width d - ?k - (TOGGLE_MORE_ACTION_WIDTH + ACTION_PADDING) - ACTION_PADDING"
  show ?thesis
  proof (cases "primaryActions ?tb1 = []")
    case True
    then show ?thesis using Some by (simp add: computeSizes_def Let_def)
  next
    case False
    from strategies_return[OF False, of mode tid ?w] obtain r tb' where
      "strategy_calculateActions mode tid ?tb1 ?w = Inr (r, tb')" by blast
    then show ?thesis using Some False by (simp add: computeSizes_def Let_def)
  qed
qed

lemma fixedCount_nothing_fits:
  "w < sz \<Longrightarrow> \<forall>s \<in> set ss. 0 \<le> s \<Longrightarrow> fixedCount w sz ss = 0"
  by (cases ss) auto

lemma icons_at_least_one:
  assumes "acts \<noteq> []"
  shows "ICON_ONLY_ACTION_WIDTH
         \<le> int (length acts) * ICON_ONLY_ACTION_WIDTH + (int (length acts) - 1) * ACTION_PADDING"
proof -
  from assms obtain x xs where "acts = x # xs" by (cases acts) auto
  then show ?thesis by (simp add: ICON_ONLY_ACTION_WIDTH_def ACTION_PADDING_def algebra_simps)
qed

lemma labels_nonnegative:
  assumes "acts \<noteq> []" and "\<forall>m \<in> set acts. 0 \<le> size_px m"
  shows "0 \<le> sum_list (map size_px acts) + (int (length acts) - 1) * ACTION_PADDING"
proof -
  have "0 \<le> sum_list (map size_px acts)" using assms(2) by (intro sum_list_nonneg) auto
  moreover have "0 \<le> (int (length acts) - 1) * ACTION_PADDING"
    using assms(1) by (cases acts) (simp_all add: ACTION_PADDING_def)
  ultimately show ?thesis by simp
qed

text \<open>
  C5. The claim has \<open>calculateActions\<close> return early on an empty primary list, and has a
  zero width lead to the full-degrade path. On the empty list each of the three strategies
  reads \<open>primaryActions[-1].action\<close> and throws; and at width 0 the dynamic strategy keeps
  a single action of size 0 with its label.
\<close>

theorem empty_list_throws:
  "FixedLabelStrategy_calculateActions toggleMore emptyToolbar 100 = Inl TypeError
   \<and> FixedLabellessStrategy_calculateActions toggleMore emptyToolbar 100 = Inl TypeError
   \<and> DynamicLabelStrategy_calculateActions toggleMore emptyToolbar 100 = Inl TypeError
   \<and> DynamicLabelStrategy_calculateActions toggleMore zeroSizeToolbar 0
       = Inr (\<lparr>primaryOut = [\<lparr>action_id = ''notebook.cell.execute'', action_class = MenuItemAction\<rparr>],
               secondaryOut = []\<rparr>, zeroSizeToolbar)
   \<and> DynamicLabelStrategy_calculateActions toggleMore zeroSizeToolbar 0
       \<noteq> Inr (calcuateWithAlllabelsHidden toggleMore zeroSizeToolbar
                (withoutToggle toggleMore (primaryActions zeroSizeToolbar)) 0)"
  by (simp add: FixedLabelStrategy_calculateActions_def FixedLabellessStrategy_calculateActions_def
      calculateFixedActions_def DynamicLabelStrategy_calculateActions_def
      calcuateWithAlllabelsHidden_def emptyToolbar_def zeroSizeToolbar_def
      withoutToggle_def hasToggleMoreAction_def notToggle_def Let_def model_def toggleMore_def
      insertMarkdownCellBelow_def ICON_ONLY_ACTION_WIDTH_def ACTION_PADDING_def)

text \<open>
  C5, as the code has it. On a non-empty primary list each strategy returns a partition at
  every width, zero and negative ones included. The early returns are these: the dynamic
  strategy returns at once, with nothing mutated, when the list holds the toggle-more action
  alone, and \<open>_computeSizes\<close> never raises, since it returns before it calls the strategy
  when there is no primary action. With at least one action besides the toggle-more action
  and no negative size, the dynamic strategy takes the full-degrade path at every negative
  width, and at width 0 when the labeled total is positive; the fixed strategies fit nothing
  at a negative width and hand every action to the secondary output.
\<close>

theorem degenerate_inputs_tolerated:
  "(primaryActions tb \<noteq> [] \<longrightarrow>
      (\<exists>r tb'. strategy_calculateActions mode tid tb w = Inr (r, tb')))
   \<and> (primaryActions tb \<noteq> [] \<and> withoutToggle tid (primaryActions tb) = [] \<longrightarrow>
        DynamicLabelStrategy_calculateActions tid tb w
          = Inr (\<lparr>primaryOut = [], secondaryOut = secondaryActions tb\<rparr>, tb))
   \<and> (\<exists>res. computeSizes tid mode dimension leftItems rightWidths tb = Inr res)
   \<and> (primaryActions tb = [] \<and> leftItems = [] \<longrightarrow>
        computeSizes tid mode dimension leftItems rightWidths tb = Inr (None, tb))
   \<and> (withoutToggle tid (primaryActions tb) \<noteq> []
        \<and> (\<forall>m \<in> set (withoutToggle tid (primaryActions tb)). 0 \<le> size_px m)
        \<and> (w < 0 \<or> w = 0
              \<and> 0 < sum_list (map size_px (withoutToggle tid (primaryActions tb)))
                    + (int (length (withoutToggle tid (primaryActions tb))) - 1) * ACTION_PADDING)
        \<longrightarrow> DynamicLabelStrategy_calculateActions tid tb w
              = Inr (calcuateWithAlllabelsHidden tid tb (withoutToggle tid (primaryActions tb)) w))
   \<and> (primaryActions tb \<noteq> []
        \<and> (\<forall>m \<in> set (withoutToggle tid (primaryActions tb)). 0 \<le> size_px m) \<and> w < 0
        \<longrightarrow> (\<exists>tb'. calculateFixedActions tid tb w
                = Inr (\<lparr>primaryOut = [],
                        secondaryOut = map action (filter (notToggle tid) (primaryActions tb))
                                       @ secondaryActions tb\<rparr>, tb')))"
proof (intro conjI impI)
  assume "primaryActions tb \<noteq> []"
  then show "\<exists>r tb'. strategy_calculateActions mode tid tb w = Inr (r, tb')"
    by (rule strategies_return)
next
  assume "primaryActions tb \<noteq> [] \<and> withoutToggle tid (primaryActions tb) = []"
  then show "DynamicLabelStrategy_calculateActions tid tb w
          = Inr (\<lparr>primaryOut = [], secondaryOut = secondaryActions tb\<rparr>, tb)"
    using dynamic_sentinel_only by blast
next
  show "\<exists>res. computeSizes tid mode dimension leftItems rightWidths tb = Inr res"
    by (rule computeSizes_returns)
next
  assume "primaryActions tb = [] \<and> leftItems = []"
  then show "computeSizes tid mode dimension leftItems rightWidths tb = Inr (None, tb)"
    by (simp add: computeSizes_def Let_def split: option.splits)
next
  let ?acts = "withoutToggle tid (primaryActions tb)"
  assume a: "?acts \<noteq> [] \<and> (\<forall>m \<in> set ?acts. 0 \<le> size_px m)
        \<and> (w < 0 \<or> w = 0
              \<and> 0 < sum_list (map size_px ?acts) + (int (length ?acts) - 1) * ACTION_PADDING)"
  then have ne: "?acts \<noteq> []" by blast
  have "0 \<le> sum_list (map size_px ?acts) + (int (length ?acts) - 1) * ACTION_PADDING"
    using a by (intro labels_nonnegative) blast+
  then have nofit: "\<not> sum_list (map size_px ?acts) + (int (length ?acts) - 1) * ACTION_PADDING \<le> w"
    using a by linarith
  have "w < ICON_ONLY_ACTION_WIDTH" using a by (auto simp add: ICON_ONLY_ACTION_WIDTH_def)
  then have "int (length ?acts) * ICON_ONLY_ACTION_WIDTH + (int (length ?acts) - 1) * ACTION_PADDING > w"
    using icons_at_least_one[OF ne] by linarith
  then show "DynamicLabelStrategy_calculateActions tid tb w
              = Inr (calcuateWithAlllabelsHidden tid tb ?acts w)"
    using dynamic_full_degrade[OF ne nofit] by blast
next
  assume a: "primaryActions tb \<noteq> []
        \<and> (\<forall>m \<in> set (withoutToggle tid (primaryActions tb)). 0 \<le> size_px m) \<and> w < 0"
  then have ne: "primaryActions tb \<noteq> []" by blast
  have "fixedCount w 0 (map size_px (withoutToggle tid (primaryActions tb))) = 0"
    using a by (intro fixedCount_nothing_fits) auto
  then show "\<exists>tb'. calculateFixedActions tid tb w
                = Inr (\<lparr>primaryOut = [],
                        secondaryOut = map action (filter (notToggle tid) (primaryActions tb))
                                       @ secondaryActions tb\<rparr>, tb')"
    unfolding calculateFixedActions_eq[OF ne] Let_def by simp
qed

theorem degenerate_inputs_tolerated_witness:
  "(\<forall>mode. \<exists>r tb'. strategy_calculateActions mode toggleMore fiveActions (- 5) = Inr (r, tb'))
   \<and> DynamicLabelStrategy_calculateActions toggleMore fiveActions (- 5)
       = Inr (calcuateWithAlllabelsHidden toggleMore fiveActions
                (withoutToggle toggleMore (primaryActions fiveActions)) (- 5))
   \<and> (\<exists>tb'. calculateFixedActions toggleMore fiveActions (- 5)
         = Inr (\<lparr>primaryOut = [],
                 secondaryOut = map action (take 5 (primaryActions fiveActions)) @ [overflowAction]\<rparr>,
                tb'))
   \<and> DynamicLabelStrategy_calculateActions toggleMore
        \<lparr>primaryActions = [model toggleMore OtherAction 21], secondaryActions = [overflowAction]\<rparr> 50
       = Inr (\<lparr>primaryOut = [], secondaryOut = [overflowAction]\<rparr>,
              \<lparr>primaryActions = [model toggleMore OtherAction 21], secondaryActions = [overflowAction]\<rparr>)
   \<and> computeSizes toggleMore Dynamic (Some \<lparr>width = 95, height = 30\<rparr>) [] [] emptyToolbar
       = Inr (None, emptyToolbar)"
proof -
  let ?acts = "withoutToggle toggleMore (primaryActions fiveActions)"
  let ?s = "\<lparr>primaryActions = [model toggleMore OtherAction 21], secondaryActions = [overflowAction]\<rparr>"
  have ne: "primaryActions fiveActions \<noteq> []" by (simp add: fiveActions_def)
  have ane: "?acts \<noteq> []" unfolding fiveActions_withoutToggle by (simp add: fiveActions_def)
  have nn: "\<forall>m \<in> set ?acts. 0 \<le> size_px m"
    unfolding fiveActions_withoutToggle by (simp add: fiveActions_def model_def)
  have nt: "filter (notToggle toggleMore) (primaryActions fiveActions)
      = take 5 (primaryActions fiveActions)"
    by (simp add: fiveActions_def model_def notToggle_def toggleMore_def)
  have sec: "secondaryActions fiveActions = [overflowAction]" by (simp add: fiveActions_def)
  have s1: "primaryActions ?s \<noteq> [] \<and> withoutToggle toggleMore (primaryActions ?s) = []"
    by (simp add: withoutToggle_def hasToggleMoreAction_def model_def)
  have e: "primaryActions emptyToolbar = [] \<and> ([] :: (IAction \<times> int) list) = []"
    by (simp add: emptyToolbar_def)
  note t = degenerate_inputs_tolerated[of fiveActions _ toggleMore "- 5"]
  have 1: "\<forall>mode. \<exists>r tb'. strategy_calculateActions mode toggleMore fiveActions (- 5) = Inr (r, tb')"
    using t ne by blast
  have 2: "DynamicLabelStrategy_calculateActions toggleMore fiveActions (- 5)
       = Inr (calcuateWithAlllabelsHidden toggleMore fiveActions ?acts (- 5))"
    using t[of Dynamic None "[]" "[]"] ane nn by simp
  have 3: "\<exists>tb'. calculateFixedActions toggleMore fiveActions (- 5)
         = Inr (\<lparr>primaryOut = [],
                 secondaryOut = map action (take 5 (primaryActions fiveActions)) @ [overflowAction]\<rparr>,
                tb')"
    using t[of Always None "[]" "[]"] ne nn unfolding nt sec by simp
  have 4: "DynamicLabelStrategy_calculateActions toggleMore ?s 50
       = Inr (\<lparr>primaryOut = [], secondaryOut = [overflowAction]\<rparr>, ?s)"
    using degenerate_inputs_tolerated[of ?s Dynamic toggleMore 50 None "[]" "[]"] s1 by simp
  have 5: "computeSizes toggleMore Dynamic (Some \<lparr>width = 95, height = 30\<rparr>) [] [] emptyToolbar
       = Inr (None, emptyToolbar)"
    using degenerate_inputs_tolerated[of emptyToolbar Dynamic toggleMore 50
        "Some \<lparr>width = 95, height = 30\<rparr>" "[]" "[]"] e by blast
  from 1 2 3 4 5 show ?thesis by blast
qed

end
